theory Spec2Isabelle
  imports Main "HOL-Library.AList"
begin

section \<open>JavaScript values\<close>

text \<open>
  The configuration, the options, the persisted state and the project records handled by
  \<open>packages/server/lib/project-base.ts\<close> are plain JavaScript objects
  (\<open>Record<string, any>\<close>). An object is the list of its properties, each name once (the
  order of the list carries no meaning); reading a property that is absent yields
  \<open>undefined\<close>. A function value (a callback, a
  method of a collaborator) is opaque and carries only a name.
\<close>

datatype jsval =
    Undefined
  | Null
  | JBool bool
  | JNum int
  | JStr string
  | JArr "jsval list"
  | JObj "(string \<times> jsval) list"
  | JFun string

type_synonym obj = "(string \<times> jsval) list"

text \<open>JavaScript truthiness, as used by \<open>if (x)\<close>, \<open>!x\<close> and \<open>a || b\<close>.\<close>

fun truthy :: "jsval \<Rightarrow> bool" where
  "truthy Undefined = False"
| "truthy Null = False"
| "truthy (JBool b) = b"
| "truthy (JNum n) = (n \<noteq> 0)"
| "truthy (JStr s) = (s \<noteq> [])"
| "truthy (JArr xs) = True"
| "truthy (JObj m) = True"
| "truthy (JFun f) = True"

text \<open>\<open>x == null\<close>, the test behind the operator \<open>??\<close>.\<close>

fun nullish :: "jsval \<Rightarrow> bool" where
  "nullish Undefined = True"
| "nullish Null = True"
| "nullish v = False"

text \<open>\<open>o.k\<close> on an object.\<close>

definition prop_of :: "obj \<Rightarrow> string \<Rightarrow> jsval" where
  "prop_of ob k = (case map_of ob k of None \<Rightarrow> Undefined | Some v \<Rightarrow> v)"

text \<open>\<open>o.k = v\<close>, and \<open>{ ...o, k: v }\<close> on a copy.\<close>

definition set_prop :: "obj \<Rightarrow> string \<Rightarrow> jsval \<Rightarrow> obj" where
  "set_prop ob k v = AList.update k v ob"

text \<open>\<open>_.extend(a, b)\<close>: every property of \<open>b\<close> is written over \<open>a\<close>.\<close>

definition extend_obj :: "obj \<Rightarrow> obj \<Rightarrow> obj" where
  "extend_obj a b = AList.merge a b"

text \<open>
  \<open>v.k\<close> on a value that is not \<open>null\<close> or \<open>undefined\<close>: a property of an object, and
  \<open>undefined\<close> on anything else (own properties of arrays, functions and primitives are not
  represented).
\<close>

fun js_prop :: "jsval \<Rightarrow> string \<Rightarrow> jsval" where
  "js_prop (JObj m) k = prop_of m k"
| "js_prop v k = Undefined"

text \<open>\<open>a && b\<close> and \<open>a || b\<close> return one of their operands.\<close>

definition js_and :: "jsval \<Rightarrow> jsval \<Rightarrow> jsval" where
  "js_and a b = (if truthy a then b else a)"

definition js_or :: "jsval \<Rightarrow> jsval \<Rightarrow> jsval" where
  "js_or a b = (if truthy a then a else b)"

text \<open>\<open>!a\<close> as a value.\<close>

definition js_not :: "jsval \<Rightarrow> jsval" where
  "js_not a = JBool (\<not> truthy a)"

text \<open>
  \<open>_.defaults(options, ds)\<close>: a property of \<open>ds\<close> is copied where the destination's value
  is \<open>undefined\<close>.
\<close>

definition defaults :: "obj \<Rightarrow> obj \<Rightarrow> obj" where
  "defaults ob ds =
     fold (\<lambda>(k, d) acc. if prop_of acc k = Undefined then set_prop acc k d else acc) ds ob"

text \<open>
  \<open>_.get(ob, 'a.b', dflt)\<close> for a path of two names: the default replaces an
  \<open>undefined\<close> result.
\<close>

definition lodash_get2 :: "obj \<Rightarrow> string \<Rightarrow> string \<Rightarrow> jsval \<Rightarrow> jsval" where
  "lodash_get2 ob a b dflt =
     (let v = js_prop (prop_of ob a) b in if v = Undefined then dflt else v)"

text \<open>
  The conversion of a value to a property key, as in \<open>o[v]\<close> and \<open>o[v] = x\<close>: a string is
  the key itself, and any other value is converted to a string first. A number is written
  in decimal (\<open>JNum\<close> holds integers; JavaScript prints an integer in decimal below
  \<open>10^21\<close>), an array is the keys of its elements joined by commas, with nothing for
  \<open>null\<close> and \<open>undefined\<close>, and a plain object is \<open>[object Object]\<close>. A function is
  converted to its source text; the model's functions carry only a name, and the text taken
  is the one of a built-in function of that name.
\<close>

definition digit :: "nat \<Rightarrow> char" where
  "digit d = ''0123456789'' ! d"

function digits :: "nat \<Rightarrow> string" where
  "digits n = (if n < 10 then [digit n] else digits (n div 10) @ [digit (n mod 10)])"
  by pat_completeness auto

termination digits
  by (relation "measure (\<lambda>n. n)") auto

declare digits.simps [simp del]

definition number_toString :: "int \<Rightarrow> string" where
  "number_toString n = (if n < 0 then CHR ''-'' # digits (nat (- n)) else digits (nat n))"

fun join_strings :: "string \<Rightarrow> string list \<Rightarrow> string" where
  "join_strings sep [] = []"
| "join_strings sep [x] = x"
| "join_strings sep (x # y # ys) = x @ sep @ join_strings sep (y # ys)"

fun toPropertyKey :: "jsval \<Rightarrow> string" where
  "toPropertyKey Undefined = ''undefined''"
| "toPropertyKey Null = ''null''"
| "toPropertyKey (JBool b) = (if b then ''true'' else ''false'')"
| "toPropertyKey (JNum n) = number_toString n"
| "toPropertyKey (JStr s) = s"
| "toPropertyKey (JArr xs) =
     join_strings '','' (map (\<lambda>x. if x = Undefined \<or> x = Null then [] else toPropertyKey x) xs)"
| "toPropertyKey (JObj m) = ''[object Object]''"
| "toPropertyKey (JFun f) = ''function '' @ f @ ''() { [native code] }''"

text \<open>
  The members that every plain object inherits from \<open>Object.prototype\<close>: its methods, and
  the accessor \<open>__proto__\<close>. None of them is enumerable.
\<close>

definition object_prototype_methods :: "string list" where
  "object_prototype_methods =
     [''constructor'', ''hasOwnProperty'', ''isPrototypeOf'', ''propertyIsEnumerable'',
      ''toLocaleString'', ''toString'', ''valueOf'', ''__defineGetter__'',
      ''__defineSetter__'', ''__lookupGetter__'', ''__lookupSetter__'']"

section \<open>Errors\<close>

text \<open>
  A thrown value or a rejected promise. Errors of the remote API client carry the HTTP
  status in \<open>statusCode\<close>; other errors leave it \<open>undefined\<close>.
\<close>

datatype error = Error (message: string) (statusCode: jsval)

section \<open>Project-status reconciliation (static helpers)\<close>

text \<open>
  The account client (\<open>./user\<close>, \<open>./api\<close>) is a collaborator outside this file; its
  answers are parameters of the model. \<open>api_getProjects\<close> may answer with a falsy value
  (\<open>None\<close>), which the caller replaces by the empty list.
\<close>

record account_client =
  user_ensureAuthToken :: "error + jsval"
  api_getProjects :: "jsval \<Rightarrow> error + obj list option"
  api_getProject :: "jsval \<Rightarrow> jsval \<Rightarrow> error + obj"

text \<open>The remote calls a static helper issues, in the order it issues them.\<close>

datatype api_call =
    EnsureAuthToken
  | GetProjects jsval
  | GetProject jsval jsval

text \<open>\<open>_mergeDetails\<close>: \<open>_.extend({}, clientProject, project, { state: 'VALID' })\<close>.\<close>

definition mergeDetails :: "obj \<Rightarrow> obj \<Rightarrow> obj" where
  "mergeDetails clientProject project =
     extend_obj (extend_obj (extend_obj [] clientProject) project)
       [(''state'', JStr ''VALID'')]"

text \<open>\<open>_mergeState\<close>: \<open>_.extend({}, clientProject, { state })\<close>.\<close>

definition mergeState :: "obj \<Rightarrow> jsval \<Rightarrow> obj" where
  "mergeState clientProject state = extend_obj (extend_obj [] clientProject) [(''state'', state)]"

text \<open>
  \<open>_getProject\<close>: one lookup of the project at the API; the \<open>catch\<close> switches on
  \<open>err.statusCode\<close> with strict equality.
\<close>

definition getProject :: "account_client \<Rightarrow> obj \<Rightarrow> jsval \<Rightarrow> api_call list \<times> (error + obj)" where
  "getProject ac clientProject authToken =
     ([GetProject (prop_of clientProject ''id'') authToken],
      case api_getProject ac (prop_of clientProject ''id'') authToken of
        Inr project \<Rightarrow> Inr (mergeDetails clientProject project)
      | Inl err \<Rightarrow>
          if statusCode err = JNum 404 then Inr (mergeState clientProject (JStr ''INVALID''))
          else if statusCode err = JNum 403 then Inr (mergeState clientProject (JStr ''UNAUTHORIZED''))
          else Inl err)"

text \<open>
  \<open>_.keyBy(projects, 'id')\<close>: the index of the remote listing, a plain object filled by
  \<open>result[key] = value\<close> with the \<open>id\<close> of each record as the key, in the order of the
  listing. The index is the list of its own properties: the key is the \<open>id\<close> converted to
  a property key, and a later record with the same key replaces an earlier one.
\<close>

definition keyBy :: "obj list \<Rightarrow> string \<Rightarrow> (string \<times> obj) list" where
  "keyBy projects k =
     foldl (\<lambda>idx p. AList.update (toPropertyKey (prop_of p k)) p idx) [] projects"

text \<open>
  \<open>projectsIndex[id]\<close>: the \<open>id\<close> is converted to a property key; the lookup yields the own
  property of that name, and otherwise what the index inherits from \<open>Object.prototype\<close>: a
  method (a function), or \<open>Object.prototype\<close> itself under \<open>__proto__\<close> (an object without
  enumerable properties), and \<open>undefined\<close> for any other name.
\<close>

definition index_get :: "(string \<times> obj) list \<Rightarrow> jsval \<Rightarrow> jsval" where
  "index_get idx v =
     (let k = toPropertyKey v in
      case map_of idx k of
        Some p \<Rightarrow> JObj p
      | None \<Rightarrow>
          if k \<in> set object_prototype_methods then JFun k
          else if k = ''__proto__'' then JObj []
          else Undefined)"

text \<open>
  The enumerable properties that \<open>_.extend\<close> copies from what a lookup in the index yields:
  those of a record; a function has none.
\<close>

fun enumerable :: "jsval \<Rightarrow> obj" where
  "enumerable (JObj m) = m"
| "enumerable v = []"

text \<open>
  \<open>Promise.all\<close>: the list of the values when every promise fulfils, and a rejection
  otherwise. Which rejection wins is the order of settlement in JavaScript; the model takes
  the first one in list order.
\<close>

fun promise_all :: "(error + 'a) list \<Rightarrow> error + 'a list" where
  "promise_all [] = Inr []"
| "promise_all (Inl e # ps) = Inl e"
| "promise_all (Inr v # ps) = (case promise_all ps of Inl e \<Rightarrow> Inl e | Inr vs \<Rightarrow> Inr (v # vs))"

text \<open>The function mapped over \<open>clientProjects\<close> by \<open>getProjectStatuses\<close>.\<close>

definition statusOf ::
  "account_client \<Rightarrow> (string \<times> obj) list \<Rightarrow> jsval \<Rightarrow> obj \<Rightarrow> api_call list \<times> (error + obj)" where
  "statusOf ac projectsIndex authToken clientProject =
     (if \<not> truthy (prop_of clientProject ''id'') then
        ([], Inr (mergeState clientProject (JStr ''VALID'')))
      else
        let project = index_get projectsIndex (prop_of clientProject ''id'') in
        if truthy project then ([], Inr (mergeDetails clientProject (enumerable project)))
        else getProject ac clientProject authToken)"

definition getProjectStatuses :: "account_client \<Rightarrow> obj list \<Rightarrow> api_call list \<times> (error + obj list)" where
  "getProjectStatuses ac clientProjects =
     (case user_ensureAuthToken ac of
        Inl e \<Rightarrow> ([EnsureAuthToken], Inl e)
      | Inr authToken \<Rightarrow>
         (case api_getProjects ac authToken of
            Inl e \<Rightarrow> ([EnsureAuthToken, GetProjects authToken], Inl e)
          | Inr answer \<Rightarrow>
              let projects = (case answer of None \<Rightarrow> [] | Some ps \<Rightarrow> ps);
                  projectsIndex = keyBy projects ''id'';
                  results = map (statusOf ac projectsIndex authToken) clientProjects
              in (EnsureAuthToken # GetProjects authToken # concat (map fst results),
                  promise_all (map snd results))))"

definition getProjectStatus :: "account_client \<Rightarrow> obj \<Rightarrow> api_call list \<times> (error + obj)" where
  "getProjectStatus ac clientProject =
     (if \<not> truthy (prop_of clientProject ''id'') then
        ([], Inr (mergeState clientProject (JStr ''VALID'')))
      else
        case user_ensureAuthToken ac of
          Inl e \<Rightarrow> ([EnsureAuthToken], Inl e)
        | Inr authToken \<Rightarrow>
            let (calls, r) = getProject ac clientProject authToken
            in (EnsureAuthToken # calls, r))"
text \<open>
  The record of the remote listing that answers for an id: the last one whose \<open>id\<close> is the
  same property key. An id is inherited when its key names a member of
  \<open>Object.prototype\<close>.
\<close>

definition listed :: "obj list \<Rightarrow> jsval \<Rightarrow> obj option" where
  "listed projects v =
     find (\<lambda>p. toPropertyKey (prop_of p ''id'') = toPropertyKey v) (rev projects)"

definition inherited :: "jsval \<Rightarrow> bool" where
  "inherited v \<longleftrightarrow>
     toPropertyKey v \<in> set object_prototype_methods \<or> toPropertyKey v = ''__proto__''"

text \<open>A concrete account client and a list of client projects, used to evaluate the helpers.\<close>

definition example_client :: account_client where
  "example_client =
     \<lparr> user_ensureAuthToken = Inr (JStr ''token''),
       api_getProjects = (\<lambda>t. Inr (Some [[(''id'', JStr ''abc123''), (''name'', JStr ''stale'')],
                                        [(''id'', JStr ''123''), (''name'', JStr ''numbered'')],
                                        [(''id'', JStr ''abc123''), (''name'', JStr ''remote'')]])),
       api_getProject = (\<lambda>i t.
          if i = JStr ''gone00'' then Inl (Error ''not found'' (JNum 404))
          else if i = JStr ''priv00'' then Inl (Error ''forbidden'' (JNum 403))
          else Inl (Error ''server error'' (JNum 500))) \<rparr>"

definition example_projects :: "obj list" where
  "example_projects =
     [[(''path'', JStr ''/a'')],
      [(''path'', JStr ''/b''), (''id'', JStr ''abc123''), (''name'', JStr ''local'')],
      [(''path'', JStr ''/c''), (''id'', JStr ''gone00'')],
      [(''path'', JStr ''/d''), (''id'', JStr ''priv00'')],
      [(''path'', JStr ''/e''), (''id'', JStr ''constructor'')],
      [(''path'', JStr ''/f''), (''id'', JNum 123)]]"

section \<open>The project instance and its collaborators\<close>

text \<open>
  A thrown \<open>TypeError\<close> (a property read on \<open>null\<close> or \<open>undefined\<close>, a call of something
  that is not a function).
\<close>

definition TypeError :: "string \<Rightarrow> error" where
  "TypeError msg = Error msg Undefined"

text \<open>\<open>v.k\<close> where \<open>v\<close> may be \<open>null\<close> or \<open>undefined\<close>.\<close>

definition js_get :: "jsval \<Rightarrow> string \<Rightarrow> error + jsval" where
  "js_get v k =
     (if nullish v then Inl (TypeError (''Cannot read property '' @ k))
      else Inr (js_prop v k))"

text \<open>
  \<open>v.k = x\<close> in strict mode: it throws on \<open>null\<close>, \<open>undefined\<close> and primitives; on an
  array or a function the new property is not represented.
\<close>

fun js_set :: "jsval \<Rightarrow> string \<Rightarrow> jsval \<Rightarrow> error + jsval" where
  "js_set (JObj m) k x = Inr (JObj (set_prop m k x))"
| "js_set (JArr xs) k x = Inr (JArr xs)"
| "js_set (JFun f) k x = Inr (JFun f)"
| "js_set v k x = Inl (TypeError (''Cannot set property '' @ k))"

datatype project_type = E2E | CT

text \<open>\<open>new ServerE2E()\<close> or \<open>new ServerCt()\<close>; \<open>new Automation(namespace, cookie, folder, \<dots>)\<close>.\<close>

datatype server = ServerE2E | ServerCt

datatype automation = Automation jsval jsval jsval

text \<open>
  A handle in the \<open>Watchers\<close> registry: \<open>watch(path, { onChange })\<close> as registered by
  \<open>watchSettings\<close>, and \<open>watchTree(pluginsFile, { onChange })\<close> as registered by
  \<open>watchPluginsFile\<close>, whose \<open>onChange\<close> closes over \<open>cfg\<close> and \<open>options\<close>.
\<close>

datatype watch =
    Watch jsval
  | WatchTree jsval obj obj

fun watch_path :: "watch \<Rightarrow> jsval" where
  "watch_path (Watch p) = p"
| "watch_path (WatchTree p cfg options) = p"

text \<open>The calls made to collaborators and to the callbacks of \<open>options\<close>, in order.\<close>

datatype event =
    Chdir string
  | ConfigGet string
  | ScaffoldIsNewProject
  | SavedStateCreate string jsval
  | SavedStateSet obj
  | SavedStateGet
  | ScaffoldPlugins jsval
  | ScaffoldSupport jsval
  | ScaffoldIntegration jsval
  | ScaffoldFixture jsval
  | ScaffoldRemoveIntegration jsval
  | PluginsInit
  | SpecsFind
  | NewSpecsStore
  | DevServerStart
  | StoreSpecFiles
  | SpecsStoreWatch
  | ServerOpen
  | ServerStartWebsockets
  | ServerReset
  | ServerClose
  | AutomationReset
  | WatchersWatch jsval
  | WatchersWatchTree jsval
  | WatchersClose
  | PreprocessorClose
  | BrowsersClose
  | FsPathExists jsval
  | LoadReporter jsval
  | CreateReporter jsval
  | SystemInfo
  | RunEvents string
  | OnError error
  | OnWarning jsval
  | OnSettingsChanged

text \<open>
  The collaborators imported by \<open>project-base.ts\<close> are outside this file. What each of
  them answers is a parameter of the model; an answer \<open>Inl e\<close> is a throw or a rejected
  promise. \<open>toString\<close> is JavaScript's conversion of a value inside a template literal or
  \<open>Array.prototype.join\<close>, left uninterpreted on values that are not strings.
\<close>

record env =
  localCwd :: string
  force_scaffold :: jsval
  toString :: "jsval \<Rightarrow> string"
  path_resolve :: "string \<Rightarrow> string"
  path_resolve2 :: "jsval \<Rightarrow> jsval \<Rightarrow> string"
  path_relative :: "jsval \<Rightarrow> string \<Rightarrow> string"
  path_join :: "string \<Rightarrow> string \<Rightarrow> string"
  path_dirname :: "jsval \<Rightarrow> jsval"
  escapeFilenameInUrl :: "string \<Rightarrow> string"
  config_get :: "string \<Rightarrow> jsval \<Rightarrow> error + obj"
  config_allowed :: "obj \<Rightarrow> obj"
  config_updateWithPluginValues :: "obj \<Rightarrow> jsval \<Rightarrow> obj"
  config_setUrls :: "obj \<Rightarrow> obj"
  settings_pathToConfigFile :: "string \<Rightarrow> obj \<Rightarrow> jsval"
  settings_pathToCypressEnvJson :: "string \<Rightarrow> jsval"
  settings_configFile :: "obj \<Rightarrow> jsval"
  errors_get :: "string \<Rightarrow> jsval list \<Rightarrow> error"
  errors_getMsgByType :: "string \<Rightarrow> jsval \<Rightarrow> jsval"
  scaffold_isNewProject :: "obj \<Rightarrow> error + jsval"
  scaffold_plugins :: "jsval \<Rightarrow> obj \<Rightarrow> error + unit"
  scaffold_support :: "jsval \<Rightarrow> obj \<Rightarrow> error + unit"
  scaffold_integration :: "jsval \<Rightarrow> obj \<Rightarrow> error + unit"
  scaffold_fixture :: "jsval \<Rightarrow> obj \<Rightarrow> error + unit"
  scaffold_removeIntegration :: "jsval \<Rightarrow> obj \<Rightarrow> error + jsval"
  plugins_init :: "obj \<Rightarrow> obj \<Rightarrow> error + jsval"
  specsUtil_find :: "obj \<Rightarrow> error + obj list"
  devServer_start :: "obj list \<Rightarrow> obj \<Rightarrow> error + jsval"
  specsStore_storeSpecFiles :: "obj \<Rightarrow> error + unit"
  server_open :: "obj \<Rightarrow> error + jsval \<times> jsval"
  server_reset :: "error + unit"
  server_close :: "error + unit"
  automation_reset :: "error + unit"
  watchers_close :: "error + unit"
  preprocessor_close :: "error + unit"
  fs_pathExists :: "jsval \<Rightarrow> bool"
  reporter_loadReporter :: "jsval \<Rightarrow> jsval \<Rightarrow> error + unit"
  reporter_create :: "jsval \<Rightarrow> jsval \<Rightarrow> jsval \<Rightarrow> jsval"
  system_info :: "error + jsval"
  runEvents_execute :: "string \<Rightarrow> obj \<Rightarrow> error + jsval"

text \<open>
  What the instance shares with the rest of the process: the calls made so far, the working
  directory, the clock read by \<open>Date.now()\<close>, and the saved state.

  Modelled from the spec: the module \<open>./saved_state\<close> is not part of the sources at hand.
  The spec describes it as a small durable key/value store for session state, a durable blob
  keyed by project root, whose handle merges a partial state into the stored one
  (\<open>load(root, isHeadless) -> StateHandle\<close>, \<open>StateHandle.merge(partial) -> PersistedState\<close>).
  \<open>persisted w root\<close> is that blob.
\<close>

record world =
  trace :: "event list"
  cwd :: string
  clock :: int
  persisted :: "string \<Rightarrow> obj"

text \<open>The fields of a \<open>ProjectBase\<close> instance, on top of the world it runs in.\<close>

record project = world +
  projectRoot :: string
  projectType :: project_type
  watchers :: "watch list"
  this_options :: "obj option"
  priv_cfg :: "obj option"
  priv_server :: "server option"
  priv_automation :: "automation option"
  spec :: jsval
  browser :: jsval
  generatedProjectIdTimestamp :: "int option"

subsection \<open>Sequencing\<close>

text \<open>
  A method is a function from the state before to its outcome and the state after. An
  \<open>async\<close> method is run to completion: what it awaits is answered by the environment.
\<close>

type_synonym 'a action = "project \<Rightarrow> (error + 'a) \<times> project"

definition ret :: "'a \<Rightarrow> 'a action" where
  "ret x s = (Inr x, s)"

definition throw :: "error \<Rightarrow> 'a action" where
  "throw e s = (Inl e, s)"

definition lift :: "error + 'a \<Rightarrow> 'a action" where
  "lift r s = (r, s)"

definition bnd :: "'a action \<Rightarrow> ('a \<Rightarrow> 'b action) \<Rightarrow> 'b action" where
  "bnd m f s = (case m s of (Inl e, s') \<Rightarrow> (Inl e, s') | (Inr x, s') \<Rightarrow> f x s')"

definition read :: "(project \<Rightarrow> 'a) \<Rightarrow> 'a action" where
  "read f s = (Inr (f s), s)"

definition modify :: "(project \<Rightarrow> project) \<Rightarrow> unit action" where
  "modify f s = (Inr (), f s)"

definition emit :: "event \<Rightarrow> unit action" where
  "emit ev s = (Inr (), s\<lparr>trace := trace s @ [ev]\<rparr>)"

text \<open>A call of a collaborator: it is recorded, then it answers.\<close>

definition call :: "event \<Rightarrow> error + 'a \<Rightarrow> 'a action" where
  "call ev r = bnd (emit ev) (\<lambda>_. lift r)"

text \<open>
  A promise that has been started and is awaited later (an element of \<open>Promise.all\<close>, the
  receiver of \<open>.catch\<close>): its effects happen, its outcome is kept as a value.
\<close>

definition settle :: "'a action \<Rightarrow> (error + 'a) action" where
  "settle m s = (case m s of (r, s') \<Rightarrow> (Inr r, s'))"

definition void :: "error + 'a \<Rightarrow> error + unit" where
  "void r = (case r of Inl e \<Rightarrow> Inl e | Inr _ \<Rightarrow> Inr ())"

fun sequence :: "unit action list \<Rightarrow> unit action" where
  "sequence [] = ret ()"
| "sequence (m # ms) = bnd m (\<lambda>_. sequence ms)"

subsection \<open>Construction and accessors\<close>

text \<open>
  The constructor. \<open>projectRoot\<close> is a string, so the second check
  (\<open>check.unemptyString\<close>) can only fail where the first one does.
\<close>

definition ProjectBase :: "env \<Rightarrow> world \<Rightarrow> string \<Rightarrow> project_type \<Rightarrow> error + project" where
  "ProjectBase env w root ptype =
     (if root = [] then Inl (Error ''Instantiating lib/project requires a projectRoot!'' Undefined)
      else Inr \<lparr> trace = trace w, cwd = cwd w, clock = clock w, persisted = persisted w,
                 projectRoot = path_resolve env root,
                 projectType = ptype,
                 watchers = [],
                 this_options = None,
                 priv_cfg = None,
                 priv_server = None,
                 priv_automation = None,
                 spec = Null,
                 browser = Null,
                 generatedProjectIdTimestamp = None \<rparr>)"

text \<open>
  Modelled from the spec: \<open>ensureProp\<close> comes from \<open>./util/class-helpers\<close>, which is not
  part of the sources at hand. The spec calls the accessors built on it lazy
  ``ensure-or-throw'' accessors for session, automation and config, which assert that the
  instance has been opened: the property is returned when it is set, and an error naming the
  method to call first is thrown when it is not.
\<close>

definition ensureProp :: "'a option \<Rightarrow> string \<Rightarrow> error + 'a" where
  "ensureProp p methodName =
     (case p of
        None \<Rightarrow> Inl (Error (''ProjectBase#'' @ methodName @ '' must first be called'') Undefined)
      | Some v \<Rightarrow> Inr v)"

text \<open>The getters \<open>server\<close>, \<open>automation\<close> and \<open>cfg\<close>.\<close>

definition get_server :: "server action" where
  "get_server = bnd (read priv_server) (\<lambda>p. lift (ensureProp p ''open''))"

definition get_automation :: "automation action" where
  "get_automation = bnd (read priv_automation) (\<lambda>p. lift (ensureProp p ''open''))"

definition get_cfg :: "obj action" where
  "get_cfg = bnd (read priv_cfg) (\<lambda>p. lift (ensureProp p ''open''))"

subsection \<open>Saved state and configuration\<close>

text \<open>
  Modelled from the spec (see \<open>world\<close>): \<open>savedState.create(projectRoot, isTextTerminal)\<close>
  followed by \<open>state.get()\<close>, and by \<open>state.set(changes)\<close> and \<open>state.get()\<close>.
\<close>

definition savedState_get :: "string \<Rightarrow> jsval \<Rightarrow> obj action" where
  "savedState_get root isTextTerminal =
     bnd (emit (SavedStateCreate root isTextTerminal)) (\<lambda>_.
     bnd (emit SavedStateGet) (\<lambda>_.
     read (\<lambda>s. persisted s root)))"

definition savedState_set_get :: "string \<Rightarrow> jsval \<Rightarrow> obj \<Rightarrow> obj action" where
  "savedState_set_get root isTextTerminal stateChanges =
     bnd (emit (SavedStateCreate root isTextTerminal)) (\<lambda>_.
     bnd (emit (SavedStateSet stateChanges)) (\<lambda>_.
     bnd (modify (\<lambda>s. s\<lparr>persisted := (persisted s)(root := extend_obj (persisted s root) stateChanges)\<rparr>)) (\<lambda>_.
     bnd (emit SavedStateGet) (\<lambda>_.
     read (\<lambda>s. persisted s root)))))"

text \<open>\<open>_setSavedState(cfg)\<close>.\<close>

definition setSavedState :: "obj \<Rightarrow> obj action" where
  "setSavedState cfg =
     bnd (read projectRoot) (\<lambda>root.
     bnd (savedState_get root (prop_of cfg ''isTextTerminal'')) (\<lambda>state.
     ret (set_prop cfg ''state'' (JObj state))))"

text \<open>The local function \<open>setNewProject\<close> of \<open>getConfig\<close>.\<close>

definition setNewProject :: "env \<Rightarrow> obj \<Rightarrow> obj action" where
  "setNewProject env cfg =
     (if truthy (prop_of cfg ''isTextTerminal'') then ret cfg
      else if \<not> truthy (prop_of cfg ''integrationFolder'') then
        throw (Error ''Missing integration folder'' Undefined)
      else
        bnd (call ScaffoldIsNewProject (scaffold_isNewProject env cfg)) (\<lambda>untouchedScaffold.
        let userHasSeenBanner = lodash_get2 cfg ''state'' ''showedNewProjectBanner'' (JBool False)
        in ret (set_prop cfg ''isNewProject'' (js_and untouchedScaffold (js_not userHasSeenBanner)))))"

text \<open>
  \<open>getConfig(options = {})\<close>. The argument is \<open>Undefined\<close> when it is omitted; \<open>null\<close>
  stands for the options stored by \<open>open\<close>.
\<close>

definition getConfig :: "env \<Rightarrow> jsval \<Rightarrow> obj action" where
  "getConfig env options_arg =
     bnd (read this_options) (\<lambda>stored.
     let options1 = (if options_arg = Undefined then JObj [] else options_arg);
         options2 = (if nullish options1
                     then (case stored of None \<Rightarrow> Undefined | Some ob \<Rightarrow> JObj ob)
                     else options1)
     in
     bnd (read priv_cfg) (\<lambda>c.
     case c of
       Some cfg \<Rightarrow> ret cfg
     | None \<Rightarrow>
         bnd (read projectRoot) (\<lambda>root.
         bnd (call (ConfigGet root) (config_get env root options2)) (\<lambda>theCfg.
         bnd (setNewProject env theCfg) (\<lambda>theCfg'.
         setSavedState theCfg')))))"

text \<open>\<open>saveState(stateChanges = {})\<close>.\<close>

definition saveState :: "obj \<Rightarrow> obj action" where
  "saveState stateChanges =
     bnd get_cfg (\<lambda>cfg.
     bnd (read projectRoot) (\<lambda>root.
     if root = [] then throw (Error ''Missing project root'' Undefined)
     else
       bnd (savedState_set_get root (prop_of cfg ''isTextTerminal'') stateChanges) (\<lambda>state.
       bnd get_cfg (\<lambda>cfg'.
       bnd (modify (\<lambda>s. s\<lparr>priv_cfg := Some (set_prop cfg' ''state'' (JObj state))\<rparr>)) (\<lambda>_.
       ret state)))))"

text \<open>\<open>removeScaffoldedFiles()\<close>.\<close>

definition removeScaffoldedFiles :: "env \<Rightarrow> jsval action" where
  "removeScaffoldedFiles env =
     bnd get_cfg (\<lambda>cfg.
     call (ScaffoldRemoveIntegration (prop_of cfg ''integrationFolder''))
       (scaffold_removeIntegration env (prop_of cfg ''integrationFolder'') cfg))"

text \<open>\<open>setBrowsers(browsers = [])\<close>, \<open>setCurrentSpecAndBrowser\<close>, \<open>getCurrentSpecAndBrowser\<close>.\<close>

definition setBrowsers :: "env \<Rightarrow> jsval \<Rightarrow> unit action" where
  "setBrowsers env browsers =
     bnd (getConfig env Undefined) (\<lambda>cfg.
     modify (\<lambda>s. case priv_cfg s of
                    Some c \<Rightarrow> s\<lparr>priv_cfg := Some (set_prop c ''browsers'' browsers)\<rparr>
                  | None \<Rightarrow> s))"

definition setCurrentSpecAndBrowser :: "jsval \<Rightarrow> jsval \<Rightarrow> unit action" where
  "setCurrentSpecAndBrowser sp br = modify (\<lambda>s. s\<lparr>spec := sp, browser := br\<rparr>)"

definition getCurrentSpecAndBrowser :: "(jsval \<times> jsval) action" where
  "getCurrentSpecAndBrowser = read (\<lambda>s. (spec s, browser s))"

subsection \<open>Plugins, spec store and server\<close>

text \<open>\<open>injectCtSpecificConfig(cfg)\<close>: \<open>rawJson.viewportHeight ?? 500\<close> over a copy of \<open>cfg\<close>.\<close>

definition injectCtSpecificConfig :: "obj \<Rightarrow> error + obj" where
  "injectCtSpecificConfig cfg =
     (let rawJson = prop_of cfg ''rawJson'' in
      case js_get rawJson ''viewportHeight'' of
        Inl e \<Rightarrow> Inl e
      | Inr h \<Rightarrow>
         (case js_get rawJson ''viewportWidth'' of
            Inl e \<Rightarrow> Inl e
          | Inr w \<Rightarrow>
              Inr (set_prop
                     (set_prop cfg ''viewportHeight'' (if nullish h then JNum 500 else h))
                     ''viewportWidth'' (if nullish w then JNum 500 else w))))"

text \<open>\<open>_onError(err, options)\<close>: the callback handed to the plugin host.\<close>

definition onError :: "error \<Rightarrow> obj \<Rightarrow> unit action" where
  "onError err options =
     bnd (emit BrowsersClose) (\<lambda>_.
     emit (OnError err))"

text \<open>\<open>startCtDevServer(specs, config)\<close>.\<close>

definition startCtDevServer :: "env \<Rightarrow> obj list \<Rightarrow> obj \<Rightarrow> jsval action" where
  "startCtDevServer env specs config =
     bnd (call DevServerStart (devServer_start env specs config)) (\<lambda>devServerOptions.
     if \<not> truthy devServerOptions then
       throw (Error ''It looks like nothing was returned from on('dev-server:start', {here}).'' Undefined)
     else ret (js_prop devServerOptions ''port''))"

text \<open>
  \<open>initSpecStore({ specs, config })\<close>. The spec store and the closure
  \<open>startSpecWatcher\<close> it returns are not values of the model: calling the closure is the
  event \<open>SpecsStoreWatch\<close>.
\<close>

definition initSpecStore :: "env \<Rightarrow> obj list \<Rightarrow> obj \<Rightarrow> obj action" where
  "initSpecStore env specs config =
     bnd (emit NewSpecsStore) (\<lambda>_.
     bnd (read projectType) (\<lambda>ptype.
     bnd (if ptype = CT then
            bnd (startCtDevServer env specs config) (\<lambda>port.
            ret (set_prop config ''baseUrl'' (JStr (''http://localhost:'' @ toString env port))))
          else ret config) (\<lambda>config'.
     bnd (call StoreSpecFiles (specsStore_storeSpecFiles env config')) (\<lambda>_.
     ret config'))))"

text \<open>
  \<open>_initPlugins(cfg, options)\<close>. The project type is \<open>'ct'\<close> or \<open>'e2e'\<close>, so the filter
  of the specs never reaches its \<open>throw\<close>.
\<close>

definition initPlugins :: "env \<Rightarrow> obj \<Rightarrow> obj \<Rightarrow> obj action" where
  "initPlugins env cfg options =
     bnd (read projectRoot) (\<lambda>root.
     bnd (read projectType) (\<lambda>ptype.
     let allowedCfg = config_allowed env cfg in
     bnd (call PluginsInit
            (plugins_init env allowedCfg
               [(''projectRoot'', JStr root),
                (''configFile'', settings_pathToConfigFile env root options),
                (''testingType'', prop_of options ''testingType'')])) (\<lambda>modifiedCfg.
     let updatedConfig = config_updateWithPluginValues env cfg modifiedCfg in
     bnd (if ptype = CT then
            (let c = set_prop updatedConfig ''componentTesting'' (JBool True) in
             case js_set (prop_of c ''resolved'') ''testingType''
                    (JObj [(''value'', JStr ''component'')]) of
               Inl e \<Rightarrow> throw e
             | Inr resolved \<Rightarrow>
                 ret (set_prop c ''resolved'' resolved))
          else ret updatedConfig) (\<lambda>updatedConfig'.
     bnd (call SpecsFind (specsUtil_find env updatedConfig')) (\<lambda>found.
     let specs = filter (\<lambda>sp. if ptype = CT then prop_of sp ''specType'' = JStr ''component''
                              else prop_of sp ''specType'' = JStr ''integration'') found
     in initSpecStore env specs updatedConfig')))))"

text \<open>\<open>onOpen(_cfg, options)\<close>: the updated config, the port and the warning.\<close>

definition onOpen :: "env \<Rightarrow> obj \<Rightarrow> obj \<Rightarrow> (obj \<times> jsval \<times> jsval) action" where
  "onOpen env cfg0 options =
     bnd (read projectType) (\<lambda>ptype.
     bnd (modify (\<lambda>s. s\<lparr>priv_server := Some (if ptype = E2E then ServerE2E else ServerCt)\<rparr>)) (\<lambda>_.
     bnd (initPlugins env cfg0 options) (\<lambda>cfg.
     bnd (if ptype = E2E then ret cfg else lift (injectCtSpecificConfig cfg)) (\<lambda>updatedCfg.
     bnd get_server (\<lambda>srv.
     bnd (call ServerOpen (server_open env updatedCfg)) (\<lambda>(port, warning).
     ret (updatedCfg, port, warning)))))))"

subsection \<open>Watching\<close>

text \<open>\<open>watchSettings(onSettingsChanged, options)\<close>.\<close>

definition watchSettings :: "env \<Rightarrow> jsval \<Rightarrow> obj \<Rightarrow> unit action" where
  "watchSettings env onSettingsChanged options =
     (if \<not> truthy onSettingsChanged then ret ()
      else
        bnd (read projectRoot) (\<lambda>root.
        bnd (if prop_of options ''configFile'' \<noteq> JBool False then
               (let p = settings_pathToConfigFile env root options in
                bnd (emit (WatchersWatch p)) (\<lambda>_.
                modify (\<lambda>s. s\<lparr>watchers := watchers s @ [Watch p]\<rparr>)))
             else ret ()) (\<lambda>_.
        let p = settings_pathToCypressEnvJson env root in
        bnd (emit (WatchersWatch p)) (\<lambda>_.
        modify (\<lambda>s. s\<lparr>watchers := watchers s @ [Watch p]\<rparr>)))))"

text \<open>
  \<open>watchSettingsAndStartWebsockets(options, cfg)\<close>. The handlers given to
  \<open>startWebsockets\<close> run on socket traffic and are not part of the model.
\<close>

definition watchSettingsAndStartWebsockets :: "env \<Rightarrow> obj \<Rightarrow> obj \<Rightarrow> unit action" where
  "watchSettingsAndStartWebsockets env options cfg =
     bnd (watchSettings env (prop_of options ''onSettingsChanged'') options) (\<lambda>_.
     let projectRoot' = prop_of cfg ''projectRoot'';
         reporter = prop_of cfg ''reporter''
     in
     bnd (if truthy (prop_of cfg ''report'') then
            bnd (settle (call (LoadReporter reporter) (reporter_loadReporter env reporter projectRoot'))) (\<lambda>r.
            case r of
              Inl err \<Rightarrow> throw (errors_get env ''INVALID_REPORTER_NAME'' [reporter, JStr (message err)])
            | Inr _ \<Rightarrow>
                bnd (emit (CreateReporter reporter)) (\<lambda>_.
                ret (reporter_create env reporter (prop_of cfg ''reporterOptions'') projectRoot')))
          else ret reporter) (\<lambda>reporter'.
     bnd (modify (\<lambda>s. s\<lparr>priv_automation :=
              Some (Automation (prop_of cfg ''namespace'') (prop_of cfg ''socketIoCookie'')
                      (prop_of cfg ''screenshotsFolder''))\<rparr>)) (\<lambda>_.
     bnd get_server (\<lambda>srv.
     bnd get_automation (\<lambda>aut.
     emit ServerStartWebsockets)))))"

text \<open>\<open>checkSupportFile(cfg)\<close>.\<close>

definition checkSupportFile :: "env \<Rightarrow> obj \<Rightarrow> unit action" where
  "checkSupportFile env cfg =
     (let supportFile = prop_of cfg ''supportFile'' in
      if truthy supportFile then
        bnd (emit (FsPathExists supportFile)) (\<lambda>_.
        if \<not> fs_pathExists env supportFile then
          throw (errors_get env ''SUPPORT_FILE_NOT_FOUND'' [supportFile, settings_configFile env cfg])
        else ret ())
      else ret ())"

text \<open>
  \<open>watchPluginsFile(cfg, options)\<close>: the handle registered by \<open>watchTree\<close> keeps the
  \<open>cfg\<close> and the \<open>options\<close> its \<open>onChange\<close> closes over.
\<close>

definition watchPluginsFile :: "env \<Rightarrow> obj \<Rightarrow> obj \<Rightarrow> unit action" where
  "watchPluginsFile env cfg options =
     (if \<not> truthy (prop_of cfg ''pluginsFile'') \<or> truthy (prop_of options ''isTextTerminal'') then ret ()
      else
        bnd (emit (FsPathExists (prop_of cfg ''pluginsFile''))) (\<lambda>_.
        if \<not> fs_pathExists env (prop_of cfg ''pluginsFile'') then ret ()
        else
          bnd (emit (WatchersWatchTree (prop_of cfg ''pluginsFile''))) (\<lambda>_.
          modify (\<lambda>s. s\<lparr>watchers := watchers s @ [WatchTree (prop_of cfg ''pluginsFile'') cfg options]\<rparr>))))"

text \<open>
  The \<open>onChange\<close> of a handle. For the plugins file it re-initialises the plugins and hands
  a rejection to \<open>options.onError\<close>; the value \<open>_initPlugins\<close> resolves to is dropped. For
  a settings file it calls \<open>onSettingsChanged\<close> unless a project id was written less than a
  second ago.
\<close>

fun onChange :: "env \<Rightarrow> watch \<Rightarrow> unit action" where
  "onChange env (WatchTree p cfg options) =
     bnd (settle (initPlugins env cfg options)) (\<lambda>r.
     case r of
       Inl err \<Rightarrow> emit (OnError err)
     | Inr _ \<Rightarrow> ret ())"
| "onChange env (Watch p) =
     bnd (read generatedProjectIdTimestamp) (\<lambda>ts.
     bnd (read clock) (\<lambda>now.
     if (case ts of None \<Rightarrow> False | Some t \<Rightarrow> t \<noteq> 0 \<and> now - t < 1000) then ret ()
     else emit OnSettingsChanged))"

text \<open>A change of the file at \<open>path\<close>: the registry runs the \<open>onChange\<close> of its handles on it.\<close>

definition fileChanged :: "env \<Rightarrow> jsval \<Rightarrow> unit action" where
  "fileChanged env path =
     bnd (read watchers) (\<lambda>ws.
     sequence (map (onChange env) (filter (\<lambda>w. watch_path w = path) ws)))"

subsection \<open>Scaffolding\<close>

text \<open>\<open>scaffold(cfg)\<close>: every task is started, then \<open>Promise.all\<close>.\<close>

definition scaffold :: "env \<Rightarrow> obj \<Rightarrow> unit list action" where
  "scaffold env cfg =
     bnd (settle (call (ScaffoldSupport (prop_of cfg ''supportFolder''))
                    (scaffold_support env (prop_of cfg ''supportFolder'') cfg))) (\<lambda>r1.
     if \<not> truthy (prop_of cfg ''isTextTerminal'') \<or> truthy (force_scaffold env) then
       bnd (settle (call (ScaffoldIntegration (prop_of cfg ''integrationFolder''))
                      (scaffold_integration env (prop_of cfg ''integrationFolder'') cfg))) (\<lambda>r2.
       bnd (settle (call (ScaffoldFixture (prop_of cfg ''fixturesFolder''))
                      (scaffold_fixture env (prop_of cfg ''fixturesFolder'') cfg))) (\<lambda>r3.
       lift (promise_all [r1, r2, r3])))
     else lift (promise_all [r1]))"

subsection \<open>The lifecycle: open, reset, close\<close>

text \<open>
  The warning attached to every browser that is not of the chromium family when
  \<open>chromeWebSecurity\<close> is \<open>false\<close> (the entries of \<open>cfg.browsers\<close> are objects).
\<close>

definition warnBrowsers :: "env \<Rightarrow> obj \<Rightarrow> obj" where
  "warnBrowsers env cfg =
     (case prop_of cfg ''browsers'' of
        JArr bs \<Rightarrow>
          set_prop cfg ''browsers'' (JArr (map (\<lambda>b. case b of
                 JObj m \<Rightarrow>
                   if prop_of m ''family'' \<noteq> JStr ''chromium''
                   then JObj (set_prop m ''warning''
                          (errors_getMsgByType env ''CHROME_WEB_SECURITY_NOT_SUPPORTED'' (prop_of m ''name'')))
                   else b
               | _ \<Rightarrow> b) bs))
      | _ \<Rightarrow> cfg)"

text \<open>
  After \<open>this._cfg = cfg2\<close> the local \<open>cfg2\<close> and the stored config are one object, and
  \<open>saveState\<close> writes its \<open>state\<close> property: later reads of \<open>cfg2\<close> see the stored one.
\<close>

definition current :: "obj \<Rightarrow> obj action" where
  "current cfg2 = read (\<lambda>s. case priv_cfg s of Some c \<Rightarrow> c | None \<Rightarrow> cfg2)"

text \<open>
  \<open>open(options = {})\<close>. Within a \<open>Promise.all\<close> every element is started in the order
  of the source; \<open>watchSettingsAndStartWebsockets\<close> is not \<open>async\<close>, so its throw leaves
  the elements after it unstarted.
\<close>

definition open_project :: "env \<Rightarrow> obj \<Rightarrow> jsval action" where
  "open_project env options0 =
     (let opts = defaults options0
                   [(''report'', JBool False),
                    (''onFocusTests'', JFun ''noop''),
                    (''onError'', JFun ''noop''),
                    (''onWarning'', JFun ''noop''),
                    (''onSettingsChanged'', JBool False)]
      in
      bnd (modify (\<lambda>s. s\<lparr>this_options := Some opts\<rparr>)) (\<lambda>_.
      bnd (getConfig env (JObj opts)) (\<lambda>cfg0.
      bnd (read projectRoot) (\<lambda>root.
      bnd (emit (Chdir root)) (\<lambda>_.
      bnd (modify (\<lambda>s. s\<lparr>cwd := root\<rparr>)) (\<lambda>_.
      let cfg1 = (if prop_of cfg0 ''chromeWebSecurity'' = JBool False then warnBrowsers env cfg0 else cfg0) in
      bnd (if truthy (prop_of cfg1 ''pluginsFile'') then
             call (ScaffoldPlugins (path_dirname env (prop_of cfg1 ''pluginsFile'')))
               (scaffold_plugins env (path_dirname env (prop_of cfg1 ''pluginsFile'')) cfg1)
           else ret ()) (\<lambda>_.
      bnd (onOpen env cfg1 opts) (\<lambda>(cfg, port, warning).
      let cfg' = (if \<not> truthy (prop_of cfg ''port'')
                  then extend_obj (set_prop cfg ''port'' port) (config_setUrls env (set_prop cfg ''port'' port))
                  else cfg);
          cfg2 = set_prop cfg' ''proxyServer'' (prop_of cfg' ''proxyUrl'')
      in
      bnd (modify (\<lambda>s. s\<lparr>priv_cfg := Some cfg2\<rparr>)) (\<lambda>_.
      bnd (if truthy warning then emit (OnWarning warning) else ret ()) (\<lambda>_.
      let opts' = set_prop opts ''onSavedStateChanged'' (JFun ''saveState'') in
      bnd (modify (\<lambda>s. s\<lparr>this_options := Some opts'\<rparr>)) (\<lambda>_.
      bnd (read clock) (\<lambda>now.
      let stateToSave =
            (if \<not> truthy (prop_of cfg2 ''state'') \<or> \<not> truthy (js_prop (prop_of cfg2 ''state'') ''firstOpened'')
             then [(''lastOpened'', JNum now), (''firstOpened'', JNum now)]
             else [(''lastOpened'', JNum now)])
      in
      bnd (watchSettingsAndStartWebsockets env opts' cfg2) (\<lambda>_.
      bnd (settle (scaffold env cfg2)) (\<lambda>r1.
      bnd (settle (saveState stateToSave)) (\<lambda>r2.
      bnd (lift (promise_all [void r1, void r2])) (\<lambda>_.
      bnd (emit SpecsStoreWatch) (\<lambda>_.
      bnd (current cfg2) (\<lambda>cfg3.
      bnd (settle (checkSupportFile env cfg3)) (\<lambda>r3.
      bnd (settle (watchPluginsFile env cfg3 opts')) (\<lambda>r4.
      bnd (lift (promise_all [r3, r4])) (\<lambda>_.
      if truthy (prop_of cfg3 ''isTextTerminal'')
           \<or> \<not> truthy (prop_of cfg3 ''experimentalInteractiveRunEvents'')
      then ret Undefined
      else
        bnd (call SystemInfo (system_info env)) (\<lambda>sys.
        call (RunEvents ''before:run'') (runEvents_execute env ''before:run'' cfg3)))))))))))))))))))))))"

text \<open>
  \<open>reset()\<close>: the fields \<open>_automation\<close> and \<open>_server\<close> are read directly, not through
  the getters.
\<close>

definition reset_project :: "env \<Rightarrow> unit action" where
  "reset_project env =
     bnd (modify (\<lambda>s. s\<lparr>spec := Null\<rparr>)) (\<lambda>_.
     bnd (modify (\<lambda>s. s\<lparr>browser := Null\<rparr>)) (\<lambda>_.
     bnd (read priv_automation) (\<lambda>aut.
     bnd (if aut \<noteq> None then call AutomationReset (automation_reset env) else ret ()) (\<lambda>_.
     bnd (read priv_server) (\<lambda>srv.
     if srv \<noteq> None then call ServerReset (server_reset env) else ret ())))))"

text \<open>
  \<open>f?.()\<close>: nothing on \<open>null\<close> and \<open>undefined\<close>, the call of a function (whose promise
  is awaited later), and a \<open>TypeError\<close> on any other value.
\<close>

definition optional_call :: "jsval \<Rightarrow> event \<Rightarrow> error + unit \<Rightarrow> (error + unit) action" where
  "optional_call f ev r =
     (if nullish f then ret (Inr ())
      else case f of
             JFun name \<Rightarrow> settle (call ev r)
           | _ \<Rightarrow> throw (TypeError ''closePreprocessor is not a function''))"

text \<open>
  \<open>close()\<close>. The elements of the array given to \<open>Promise.all\<close> are evaluated in order:
  \<open>this.server?.close()\<close>, which goes through the getter \<open>server\<close>, then
  \<open>this.watchers?.close()\<close> on the registry made by the constructor, then
  \<open>closePreprocessor?.()\<close>, where \<open>closePreprocessor\<close> is
  \<open>(this.projectType === 'e2e' && preprocessor.close) ?? undefined\<close>. Closing the registry
  of watchers empties it.
\<close>

definition close_project :: "env \<Rightarrow> jsval action" where
  "close_project env =
     bnd (modify (\<lambda>s. s\<lparr>spec := Null\<rparr>)) (\<lambda>_.
     bnd (modify (\<lambda>s. s\<lparr>browser := Null\<rparr>)) (\<lambda>_.
     bnd (read projectType) (\<lambda>ptype.
     let closePreprocessor = js_and (JBool (ptype = E2E)) (JFun ''preprocessor.close'') in
     bnd get_server (\<lambda>srv.
     bnd (settle (call ServerClose (server_close env))) (\<lambda>r1.
     bnd (modify (\<lambda>s. s\<lparr>watchers := []\<rparr>)) (\<lambda>_.
     bnd (settle (call WatchersClose (watchers_close env))) (\<lambda>r2.
     bnd (optional_call closePreprocessor PreprocessorClose (preprocessor_close env)) (\<lambda>r3.
     bnd (lift (promise_all [r1, r2, r3])) (\<lambda>_.
     bnd (emit (Chdir (localCwd env))) (\<lambda>_.
     bnd (modify (\<lambda>s. s\<lparr>cwd := localCwd env\<rparr>)) (\<lambda>_.
     bnd (getConfig env Undefined) (\<lambda>config.
     if truthy (prop_of config ''isTextTerminal'')
          \<or> \<not> truthy (prop_of config ''experimentalInteractiveRunEvents'')
     then ret Undefined
     else call (RunEvents ''after:run'') (runEvents_execute env ''after:run'' config)))))))))))))"

subsection \<open>Spec URLs\<close>

text \<open>
  \<open>s.replace(multipleForwardSlashesRe, replacer)\<close> with
  \<open>multipleForwardSlashesRe = /[^:\/\/](\/{2,})/g\<close> and
  \<open>replacer = (match) => match.replace('//', '/')\<close>: scanning from the left, a character
  other than \<open>:\<close> and \<open>/\<close> that is followed by two or more slashes is matched together with
  the whole run of slashes, and the first \<open>//\<close> of the match becomes \<open>/\<close>; the scan goes on
  behind the match.
\<close>

definition is_slash :: "char \<Rightarrow> bool" where
  "is_slash c = (c = CHR ''/'')"

function replace_multipleForwardSlashes :: "string \<Rightarrow> string" where
  "replace_multipleForwardSlashes [] = []"
| "replace_multipleForwardSlashes (c # cs) =
     (if c \<noteq> CHR '':'' \<and> c \<noteq> CHR ''/'' \<and> 2 \<le> length (takeWhile is_slash cs)
      then c # tl (takeWhile is_slash cs) @ replace_multipleForwardSlashes (dropWhile is_slash cs)
      else c # replace_multipleForwardSlashes cs)"
  by pat_completeness auto
termination
  by (relation "measure length") (auto simp: less_Suc_eq_le length_dropWhile_le)

text \<open>
  No character of the string other than \<open>:\<close> and \<open>/\<close> is followed by two or more
  slashes: the regular expression has no match in it.
\<close>

fun slash_run_free :: "string \<Rightarrow> bool" where
  "slash_run_free [] = True"
| "slash_run_free (c # cs) =
     (\<not> (c \<noteq> CHR '':'' \<and> c \<noteq> CHR ''/'' \<and> 2 \<le> length (takeWhile is_slash cs))
      \<and> slash_run_free cs)"

text \<open>An element of \<open>Array.prototype.join\<close>: \<open>null\<close> and \<open>undefined\<close> are empty strings.\<close>

definition join_element :: "env \<Rightarrow> jsval \<Rightarrow> string" where
  "join_element env v =
     (if nullish v then [] else case v of JStr s \<Rightarrow> s | _ \<Rightarrow> toString env v)"

text \<open>\<open>normalizeSpecUrl(browserUrl, specUrl)\<close>.\<close>

definition normalizeSpecUrl :: "env \<Rightarrow> jsval \<Rightarrow> string \<Rightarrow> string" where
  "normalizeSpecUrl env browserUrl specUrl =
     replace_multipleForwardSlashes
       (join_element env browserUrl @ ''/'' @ ''#/tests'' @ ''/'' @ escapeFilenameInUrl env specUrl)"

text \<open>
  \<open>getPrefixedPathToSpec(cfg, pathToSpec, type = 'integration')\<close>; \<open>path.join\<close> throws on
  a \<open>type\<close> that is not a string.
\<close>

definition getPrefixedPathToSpec :: "env \<Rightarrow> obj \<Rightarrow> jsval \<Rightarrow> jsval \<Rightarrow> error + string" where
  "getPrefixedPathToSpec env cfg pathToSpec type_arg =
     (let type = (if type_arg = Undefined then JStr ''integration'' else type_arg);
          folderToUse = (if type = JStr ''integration'' then prop_of cfg ''integrationFolder''
                         else prop_of cfg ''componentFolder'')
      in case type of
           JStr t \<Rightarrow>
             Inr (''/'' @ map (\<lambda>c. if c = CHR 0x5C then CHR ''/'' else c)
                    (path_join env t
                       (path_relative env folderToUse
                          (path_resolve2 env (prop_of cfg ''projectRoot'') pathToSpec))))
         | _ \<Rightarrow> Inl (TypeError ''The \"path\" argument must be of type string''))"

text \<open>\<open>getSpecUrl(absoluteSpecPath, specType)\<close>.\<close>

definition getSpecUrl :: "env \<Rightarrow> jsval \<Rightarrow> jsval \<Rightarrow> string action" where
  "getSpecUrl env absoluteSpecPath specType =
     bnd (getConfig env Undefined) (\<lambda>cfg.
     if \<not> truthy absoluteSpecPath \<or> absoluteSpecPath = JStr ''__all'' then
       ret (normalizeSpecUrl env (prop_of cfg ''browserUrl'') ''/__all'')
     else
       bnd (lift (getPrefixedPathToSpec env cfg absoluteSpecPath specType)) (\<lambda>prefixedPath.
       ret (normalizeSpecUrl env (prop_of cfg ''browserUrl'') prefixedPath)))"

subsection \<open>A concrete project\<close>

text \<open>
  An environment in which every collaborator succeeds, used to run the methods on concrete
  inputs: an end-to-end project at \<open>/proj\<close> with a plugins file and a support file, in
  interactive mode, with no saved state.
\<close>

definition example_config :: obj where
  "example_config =
     [(''projectRoot'', JStr ''/proj''),
      (''integrationFolder'', JStr ''/proj/cypress/integration''),
      (''pluginsFile'', JStr ''/proj/cypress/plugins/index.js''),
      (''supportFile'', JStr ''/proj/cypress/support/index.js''),
      (''port'', JNum 2020),
      (''browserUrl'', JStr ''http://localhost:2020/__/''),
      (''proxyUrl'', JStr ''http://localhost:2020''),
      (''rawJson'', JObj []),
      (''resolved'', JObj [])]"

definition example_env :: env where
  "example_env =
     \<lparr> localCwd = ''/home/user'',
       force_scaffold = Undefined,
       toString = (\<lambda>v. ''3000''),
       path_resolve = (\<lambda>p. p),
       path_resolve2 = (\<lambda>a b. ''/proj/cypress/integration/foo.js''),
       path_relative = (\<lambda>a b. ''foo.js''),
       path_join = (\<lambda>a b. a @ ''/'' @ b),
       path_dirname = (\<lambda>p. JStr ''/proj/cypress/plugins''),
       escapeFilenameInUrl = (\<lambda>u. u),
       config_get = (\<lambda>root opts. Inr example_config),
       config_allowed = (\<lambda>cfg. cfg),
       config_updateWithPluginValues = (\<lambda>cfg overrides. cfg),
       config_setUrls = (\<lambda>cfg. []),
       settings_pathToConfigFile = (\<lambda>root opts. JStr ''/proj/cypress.json''),
       settings_pathToCypressEnvJson = (\<lambda>root. JStr ''/proj/cypress.env.json''),
       settings_configFile = (\<lambda>opts. JStr ''cypress.json''),
       errors_get = (\<lambda>kind args. Error kind Undefined),
       errors_getMsgByType = (\<lambda>kind arg. JStr kind),
       scaffold_isNewProject = (\<lambda>cfg. Inr (JBool False)),
       scaffold_plugins = (\<lambda>folder cfg. Inr ()),
       scaffold_support = (\<lambda>folder cfg. Inr ()),
       scaffold_integration = (\<lambda>folder cfg. Inr ()),
       scaffold_fixture = (\<lambda>folder cfg. Inr ()),
       scaffold_removeIntegration = (\<lambda>folder cfg. Inr Undefined),
       plugins_init = (\<lambda>cfg opts. Inr Undefined),
       specsUtil_find = (\<lambda>cfg. Inr []),
       devServer_start = (\<lambda>specs cfg. Inr (JObj [(''port'', JNum 3000)])),
       specsStore_storeSpecFiles = (\<lambda>cfg. Inr ()),
       server_open = (\<lambda>cfg. Inr (JNum 2020, Undefined)),
       server_reset = Inr (),
       server_close = Inr (),
       automation_reset = Inr (),
       watchers_close = Inr (),
       preprocessor_close = Inr (),
       fs_pathExists = (\<lambda>p. True),
       reporter_loadReporter = (\<lambda>name root. Inr ()),
       reporter_create = (\<lambda>name opts root. JObj []),
       system_info = Inr (JObj []),
       runEvents_execute = (\<lambda>name cfg. Inr Undefined) \<rparr>"

text \<open>The same environment after the plugins file has been broken: the plugin host rejects.\<close>

definition broken_plugins_env :: env where
  "broken_plugins_env =
     example_env\<lparr>plugins_init := (\<lambda>cfg opts. Inl (Error ''plugins file threw'' Undefined))\<rparr>"

definition example_world :: world where
  "example_world = \<lparr> trace = [], cwd = ''/home/user'', clock = 1000, persisted = (\<lambda>root. []) \<rparr>"

text \<open>A fresh instance: \<open>new ProjectBase({ projectRoot: '/proj', projectType: 'e2e' })\<close>.\<close>

definition example_project :: project where
  "example_project =
     \<lparr> trace = [], cwd = ''/home/user'', clock = 1000, persisted = (\<lambda>root. []),
       projectRoot = ''/proj'', projectType = E2E, watchers = [], this_options = None,
       priv_cfg = None, priv_server = None, priv_automation = None,
       spec = Null, browser = Null, generatedProjectIdTimestamp = None \<rparr>"

text \<open>The same project opened for component testing.\<close>

definition ct_project :: project where
  "ct_project = example_project\<lparr>projectType := CT\<rparr>"

subsection \<open>Running a method several times; frames\<close>

text \<open>\<open>n\<close> calls of a method in a row, stopping at the first throw.\<close>

fun times :: "nat \<Rightarrow> unit action \<Rightarrow> unit action" where
  "times 0 m = ret ()"
| "times (Suc n) m = bnd m (\<lambda>_. times n m)"

text \<open>A method keeps a property \<open>P\<close> of the state, whatever its outcome.\<close>

definition keeps :: "(project \<Rightarrow> bool) \<Rightarrow> 'a action \<Rightarrow> bool" where
  "keeps P m \<longleftrightarrow> (\<forall>s. P s \<longrightarrow> P (snd (m s)))"

text \<open>
  What holds of the result and of the state when a method returns: \<open>Q\<close> holds after
  \<open>m\<close> from \<open>s\<close> unless \<open>m\<close> throws.
\<close>

definition wp :: "'a action \<Rightarrow> ('a \<Rightarrow> project \<Rightarrow> bool) \<Rightarrow> project \<Rightarrow> bool" where
  "wp m Q s = (case m s of (Inl e, s') \<Rightarrow> True | (Inr y, s') \<Rightarrow> Q y s')"

text \<open>
  The state to save that \<open>open\<close> computes, as a function of the \<open>state\<close> property of the
  config it stores and of the time it reads.
\<close>

definition stateToSave_of :: "jsval \<Rightarrow> int \<Rightarrow> obj" where
  "stateToSave_of state now =
     (if \<not> truthy state \<or> \<not> truthy (js_prop state ''firstOpened'')
      then [(''lastOpened'', JNum now), (''firstOpened'', JNum now)]
      else [(''lastOpened'', JNum now)])"

text \<open>
  The \<open>state\<close> property of the config that \<open>getConfig\<close> hands to \<open>open\<close>: the one of
  the stored config, or the saved state of the project root.
\<close>

definition state_seen :: "project \<Rightarrow> jsval" where
  "state_seen s =
     (case priv_cfg s of
        Some c \<Rightarrow> prop_of c ''state''
      | None \<Rightarrow> JObj (persisted s (projectRoot s)))"

text \<open>\<open>this._cfg?.k\<close>: a property of the stored config, \<open>undefined\<close> when there is none.\<close>

definition stored_prop :: "project \<Rightarrow> string \<Rightarrow> jsval" where
  "stored_prop s k = (case priv_cfg s of None \<Rightarrow> Undefined | Some c \<Rightarrow> prop_of c k)"

text \<open>The states reached from the concrete project: opened, then closed.\<close>

definition opened_example :: project where
  "opened_example = snd (open_project example_env [] example_project)"

definition closed_example :: project where
  "closed_example = snd (close_project example_env opened_example)"

text \<open>
  The opened project after \<open>saveState({ appWidth: 800 })\<close> and \<open>close()\<close>, at a later
  time, and opened again.
\<close>

definition resumed_example :: project where
  "resumed_example =
     (snd (close_project example_env
        (snd (saveState [(''appWidth'', JNum 800)] opened_example))))\<lparr>clock := 2000\<rparr>"

definition reopened_example :: project where
  "reopened_example = snd (open_project example_env [] resumed_example)"

text \<open>
  The same with \<open>saveState({ firstOpened: 7 })\<close> in between; and the project opened at
  time \<open>0\<close>, closed, and opened again at time \<open>5\<close>.
\<close>

definition overwritten_example :: project where
  "overwritten_example =
     (snd (close_project example_env
        (snd (saveState [(''firstOpened'', JNum 7)] opened_example))))\<lparr>clock := 2000\<rparr>"

definition zero_example :: project where
  "zero_example = snd (open_project example_env [] (example_project\<lparr>clock := 0\<rparr>))"

definition zero_resumed_example :: project where
  "zero_resumed_example = (snd (close_project example_env zero_example))\<lparr>clock := 5\<rparr>"

text \<open>
  The handle that \<open>open\<close> registers for the plugins file of the concrete project, and the
  state after a change of that file when the plugin host rejects.
\<close>

definition example_handle :: watch where
  "example_handle =
     WatchTree (JStr ''/proj/cypress/plugins/index.js'')
       (case priv_cfg opened_example of Some c \<Rightarrow> c | None \<Rightarrow> [])
       (case this_options opened_example of Some opts \<Rightarrow> opts | None \<Rightarrow> [])"

definition failed_example :: project where
  "failed_example = snd (onChange broken_plugins_env example_handle opened_example)"

section \<open>Properties of objects\<close>

lemma map_of_set_prop: "map_of (set_prop ob k v) = (map_of ob)(k \<mapsto> v)"
  by (simp add: set_prop_def update_conv')

lemma map_of_extend_obj: "map_of (extend_obj a b) = map_of a ++ map_of b"
  by (simp add: extend_obj_def merge_conv')

lemma prop_of_set_prop: "prop_of (set_prop ob k v) k' = (if k' = k then v else prop_of ob k')"
  by (simp add: prop_of_def map_of_set_prop)

lemma prop_of_extend_obj:
  "prop_of (extend_obj a b) k = (case map_of b k of Some v \<Rightarrow> v | None \<Rightarrow> prop_of a k)"
  by (simp add: prop_of_def map_of_extend_obj map_add_def split: option.splits)

lemma prop_of_Nil: "prop_of [] k = Undefined"
  by (simp add: prop_of_def)

lemma prop_of_Cons: "prop_of ((k', v) # ob) k = (if k = k' then v else prop_of ob k)"
  by (simp add: prop_of_def)

section \<open>Properties of the status reconciliation\<close>

lemma promise_all_map_Inr: "promise_all (map Inr vs) = Inr vs"
  by (induction vs) simp_all

lemma promise_all_Inr_D: "promise_all ps = Inr vs \<Longrightarrow> ps = map Inr vs"
proof (induction ps arbitrary: vs)
  case Nil
  then show ?case by simp
next
  case (Cons p ps)
  then show ?case by (cases p) (auto split: sum.splits)
qed

lemma promise_all_Inl: "promise_all ps = Inl e \<Longrightarrow> Inl e \<in> set ps"
proof (induction ps)
  case Nil
  then show ?case by simp
next
  case (Cons p ps)
  then show ?case by (cases p) (auto split: sum.splits)
qed

lemma promise_all_rejects: "Inl e \<in> set ps \<Longrightarrow> \<exists>e'. promise_all ps = Inl e'"
proof (induction ps)
  case Nil
  then show ?case by simp
next
  case (Cons p ps)
  then show ?case by (cases p) (auto split: sum.splits)
qed

lemma mergeState_state: "prop_of (mergeState cp v) ''state'' = v"
  by (simp add: mergeState_def prop_of_extend_obj)

lemma mergeState_other: "k \<noteq> ''state'' \<Longrightarrow> prop_of (mergeState cp v) k = prop_of cp k"
  by (simp add: mergeState_def prop_of_extend_obj prop_of_Nil split: option.splits)
    (simp add: prop_of_def)

lemma mergeDetails_state: "prop_of (mergeDetails cp p) ''state'' = JStr ''VALID''"
  by (simp add: mergeDetails_def prop_of_extend_obj)

lemma mergeDetails_other:
  "k \<noteq> ''state'' \<Longrightarrow>
     prop_of (mergeDetails cp p) k = (case map_of p k of Some v \<Rightarrow> v | None \<Rightarrow> prop_of cp k)"
  by (simp add: mergeDetails_def prop_of_extend_obj prop_of_Nil split: option.splits)
    (simp add: prop_of_def)

lemma mergeDetails_Nil: "mergeDetails cp [] = mergeState cp (JStr ''VALID'')"
  by (simp add: mergeDetails_def mergeState_def extend_obj_def)

text \<open>The index holds, under each key, the last record of the listing with that key.\<close>

lemma map_of_keyBy:
  "map_of (keyBy projects k) key = find (\<lambda>p. toPropertyKey (prop_of p k) = key) (rev projects)"
proof (induction projects rule: rev_induct)
  case Nil
  show ?case by (simp add: keyBy_def)
next
  case (snoc p projects)
  then show ?case by (auto simp: keyBy_def update_conv')
qed

lemma index_get_keyBy:
  "index_get (keyBy projects ''id'') v =
     (case listed projects v of
        Some p \<Rightarrow> JObj p
      | None \<Rightarrow>
          if toPropertyKey v \<in> set object_prototype_methods then JFun (toPropertyKey v)
          else if toPropertyKey v = ''__proto__'' then JObj []
          else Undefined)"
  by (simp add: index_get_def Let_def map_of_keyBy listed_def)

lemma statusOf_keyBy:
  "statusOf ac (keyBy projects ''id'') tok cp =
     (if \<not> truthy (prop_of cp ''id'') then ([], Inr (mergeState cp (JStr ''VALID'')))
      else case listed projects (prop_of cp ''id'') of
        Some p \<Rightarrow> ([], Inr (mergeDetails cp p))
      | None \<Rightarrow>
          if inherited (prop_of cp ''id'') then ([], Inr (mergeState cp (JStr ''VALID'')))
          else getProject ac cp tok)"
  by (simp add: statusOf_def Let_def index_get_keyBy inherited_def mergeDetails_Nil
      split: option.splits)

lemma statusOf_calls:
  "fst (statusOf ac (keyBy projects ''id'') tok cp) =
     (if truthy (prop_of cp ''id'') \<and> listed projects (prop_of cp ''id'') = None
         \<and> \<not> inherited (prop_of cp ''id'')
      then [GetProject (prop_of cp ''id'') tok] else [])"
  by (simp add: statusOf_keyBy getProject_def split: option.splits)

lemma statusOf_Inr:
  assumes "snd (statusOf ac (keyBy projects ''id'') tok cp) = Inr ob"
  shows "(\<not> truthy (prop_of cp ''id'') \<longrightarrow> ob = mergeState cp (JStr ''VALID''))
     \<and> (truthy (prop_of cp ''id'') \<longrightarrow>
          (\<forall>p. listed projects (prop_of cp ''id'') = Some p \<longrightarrow> ob = mergeDetails cp p))
     \<and> (truthy (prop_of cp ''id'') \<and> listed projects (prop_of cp ''id'') = None
          \<and> inherited (prop_of cp ''id'') \<longrightarrow> ob = mergeState cp (JStr ''VALID''))
     \<and> (truthy (prop_of cp ''id'') \<and> listed projects (prop_of cp ''id'') = None
          \<and> \<not> inherited (prop_of cp ''id'') \<longrightarrow>
          (\<forall>p. api_getProject ac (prop_of cp ''id'') tok = Inr p \<longrightarrow> ob = mergeDetails cp p)
        \<and> (\<forall>e. api_getProject ac (prop_of cp ''id'') tok = Inl e \<longrightarrow>
              (statusCode e = JNum 404 \<and> ob = mergeState cp (JStr ''INVALID''))
            \<or> (statusCode e = JNum 403 \<and> ob = mergeState cp (JStr ''UNAUTHORIZED''))))"
  using assms
  by (auto simp: statusOf_keyBy getProject_def split: option.splits sum.splits if_splits)

lemma statusOf_Inl:
  "snd (statusOf ac (keyBy projects ''id'') tok cp) = Inl e \<longleftrightarrow>
     truthy (prop_of cp ''id'') \<and> listed projects (prop_of cp ''id'') = None
     \<and> \<not> inherited (prop_of cp ''id'')
     \<and> api_getProject ac (prop_of cp ''id'') tok = Inl e
     \<and> statusCode e \<noteq> JNum 404 \<and> statusCode e \<noteq> JNum 403"
  by (auto simp: statusOf_keyBy getProject_def split: option.splits sum.splits if_splits)

lemma getProjectStatuses_eq:
  assumes "user_ensureAuthToken ac = Inr tok" "api_getProjects ac tok = Inr answer"
  shows "getProjectStatuses ac cps =
     (EnsureAuthToken # GetProjects tok #
        concat (map (\<lambda>cp. fst (statusOf ac (keyBy (case answer of None \<Rightarrow> [] | Some ps \<Rightarrow> ps) ''id'') tok cp)) cps),
      promise_all (map (\<lambda>cp. snd (statusOf ac (keyBy (case answer of None \<Rightarrow> [] | Some ps \<Rightarrow> ps) ''id'') tok cp)) cps))"
  using assms by (simp add: getProjectStatuses_def Let_def comp_def)


text \<open>
  Claim C1, for every list of client projects passed to \<open>getProjectStatuses\<close> (the token
  and the remote listing having been obtained) and for a single project passed to
  \<open>getProjectStatus\<close>. A project whose \<open>id\<close> is falsy resolves to the client record with
  state \<open>VALID\<close>, and no lookup is issued for it. A project whose id is listed (as a
  property key, it is the id of a record of the remote listing) resolves to the client
  record overwritten by the fields of the last such record, with state \<open>VALID\<close>, again
  without a lookup. A project whose id is not listed triggers one lookup, whose failure
  with status 404 gives state \<open>INVALID\<close>, with status 403 gives \<open>UNAUTHORIZED\<close>, and with
  any other status makes the whole call reject with the very error the API client raised:
  but only when the id does not name a member of \<open>Object.prototype\<close>. An id that is not
  listed and names such a member (\<open>constructor\<close>, \<open>toString\<close>, ...) is found in the index
  all the same: the project resolves to the client record with state \<open>VALID\<close> and no
  lookup is issued, where the claim asks for an individual lookup.
\<close>

theorem status_reconciliation:
  assumes tok: "user_ensureAuthToken ac = Inr tok"
    and lst: "api_getProjects ac tok = Inr answer"
    and projects: "projects = (case answer of None \<Rightarrow> [] | Some ps \<Rightarrow> ps)"
    and run: "getProjectStatuses ac cps = (calls, res)"
  shows
    "(\<forall>out. res = Inr out \<longrightarrow> length out = length cps \<and>
        (\<forall>i<length cps.
           (\<not> truthy (prop_of (cps ! i) ''id'') \<longrightarrow>
              out ! i = mergeState (cps ! i) (JStr ''VALID''))
         \<and> (truthy (prop_of (cps ! i) ''id'') \<longrightarrow>
              (\<forall>p. listed projects (prop_of (cps ! i) ''id'') = Some p \<longrightarrow>
                 out ! i = mergeDetails (cps ! i) p
               \<and> prop_of (out ! i) ''state'' = JStr ''VALID''
               \<and> (\<forall>k. k \<noteq> ''state'' \<longrightarrow>
                     prop_of (out ! i) k = (case map_of p k of Some v \<Rightarrow> v | None \<Rightarrow> prop_of (cps ! i) k))))
         \<and> (truthy (prop_of (cps ! i) ''id'') \<and> listed projects (prop_of (cps ! i) ''id'') = None
              \<and> inherited (prop_of (cps ! i) ''id'') \<longrightarrow>
              out ! i = mergeState (cps ! i) (JStr ''VALID''))
         \<and> (truthy (prop_of (cps ! i) ''id'') \<and> listed projects (prop_of (cps ! i) ''id'') = None
              \<and> \<not> inherited (prop_of (cps ! i) ''id'') \<longrightarrow>
              (\<forall>e. api_getProject ac (prop_of (cps ! i) ''id'') tok = Inl e \<longrightarrow>
                 (statusCode e = JNum 404 \<and> out ! i = mergeState (cps ! i) (JStr ''INVALID''))
               \<or> (statusCode e = JNum 403 \<and> out ! i = mergeState (cps ! i) (JStr ''UNAUTHORIZED''))))))
   \<and> (\<forall>e. res = Inl e \<longrightarrow>
        (\<exists>cp\<in>set cps. truthy (prop_of cp ''id'') \<and> listed projects (prop_of cp ''id'') = None
           \<and> \<not> inherited (prop_of cp ''id'')
           \<and> api_getProject ac (prop_of cp ''id'') tok = Inl e
           \<and> statusCode e \<noteq> JNum 404 \<and> statusCode e \<noteq> JNum 403))
   \<and> (\<forall>cp\<in>set cps. \<forall>e.
        truthy (prop_of cp ''id'') \<and> listed projects (prop_of cp ''id'') = None
          \<and> \<not> inherited (prop_of cp ''id'')
          \<and> api_getProject ac (prop_of cp ''id'') tok = Inl e
          \<and> statusCode e \<noteq> JNum 404 \<and> statusCode e \<noteq> JNum 403
        \<longrightarrow> (\<exists>e'. res = Inl e'))
   \<and> (\<forall>k t. GetProject k t \<in> set calls \<longleftrightarrow>
        t = tok \<and> (\<exists>cp\<in>set cps. truthy (prop_of cp ''id'') \<and> k = prop_of cp ''id''
           \<and> listed projects k = None \<and> \<not> inherited k))
   \<and> (\<forall>v. listed projects v =
          find (\<lambda>p. toPropertyKey (prop_of p ''id'') = toPropertyKey v) (rev projects))
   \<and> (\<forall>cp. \<not> truthy (prop_of cp ''id'') \<longrightarrow>
        getProjectStatus ac cp = ([], Inr (mergeState cp (JStr ''VALID''))))
   \<and> (\<forall>cp. truthy (prop_of cp ''id'') \<longrightarrow>
        getProjectStatus ac cp =
          ([EnsureAuthToken, GetProject (prop_of cp ''id'') tok],
           case api_getProject ac (prop_of cp ''id'') tok of
             Inr p \<Rightarrow> Inr (mergeDetails cp p)
           | Inl e \<Rightarrow>
               if statusCode e = JNum 404 then Inr (mergeState cp (JStr ''INVALID''))
               else if statusCode e = JNum 403 then Inr (mergeState cp (JStr ''UNAUTHORIZED''))
               else Inl e))
   \<and> (\<forall>cp v. prop_of (mergeState cp v) ''state'' = v)"
proof -
  let ?f = "\<lambda>cp. snd (statusOf ac (keyBy projects ''id'') tok cp)"
  from getProjectStatuses_eq [OF tok lst, of cps] run projects
  have calls: "calls = EnsureAuthToken # GetProjects tok #
      concat (map (\<lambda>cp. fst (statusOf ac (keyBy projects ''id'') tok cp)) cps)"
    and res: "res = promise_all (map ?f cps)"
    by simp_all
  let ?P = "\<lambda>out i.
           (\<not> truthy (prop_of (cps ! i) ''id'') \<longrightarrow>
              out ! i = mergeState (cps ! i) (JStr ''VALID''))
         \<and> (truthy (prop_of (cps ! i) ''id'') \<longrightarrow>
              (\<forall>p. listed projects (prop_of (cps ! i) ''id'') = Some p \<longrightarrow>
                 out ! i = mergeDetails (cps ! i) p
               \<and> prop_of (out ! i) ''state'' = JStr ''VALID''
               \<and> (\<forall>k. k \<noteq> ''state'' \<longrightarrow>
                     prop_of (out ! i) k = (case map_of p k of Some v \<Rightarrow> v | None \<Rightarrow> prop_of (cps ! i) k))))
         \<and> (truthy (prop_of (cps ! i) ''id'') \<and> listed projects (prop_of (cps ! i) ''id'') = None
              \<and> inherited (prop_of (cps ! i) ''id'') \<longrightarrow>
              out ! i = mergeState (cps ! i) (JStr ''VALID''))
         \<and> (truthy (prop_of (cps ! i) ''id'') \<and> listed projects (prop_of (cps ! i) ''id'') = None
              \<and> \<not> inherited (prop_of (cps ! i) ''id'') \<longrightarrow>
              (\<forall>e. api_getProject ac (prop_of (cps ! i) ''id'') tok = Inl e \<longrightarrow>
                 (statusCode e = JNum 404 \<and> out ! i = mergeState (cps ! i) (JStr ''INVALID''))
               \<or> (statusCode e = JNum 403 \<and> out ! i = mergeState (cps ! i) (JStr ''UNAUTHORIZED''))))"
  have A: "\<forall>out. res = Inr out \<longrightarrow> length out = length cps \<and> (\<forall>i<length cps. ?P out i)"
  proof (intro allI impI)
    fix out
    assume "res = Inr out"
    with res have eq: "map ?f cps = map Inr out"
      by (simp add: promise_all_Inr_D)
    from arg_cong [OF eq, of length] have len: "length out = length cps"
      by simp
    have each: "?f (cps ! i) = Inr (out ! i)" if "i < length cps" for i
      using arg_cong [OF eq, of "\<lambda>xs. xs ! i"] that len by simp
    have "?P out i" if i: "i < length cps" for i
    proof -
      note st = statusOf_Inr [OF each [OF i]]
      have "out ! i = mergeDetails (cps ! i) p
               \<and> prop_of (out ! i) ''state'' = JStr ''VALID''
               \<and> (\<forall>k. k \<noteq> ''state'' \<longrightarrow>
                     prop_of (out ! i) k = (case map_of p k of Some v \<Rightarrow> v | None \<Rightarrow> prop_of (cps ! i) k))"
        if "truthy (prop_of (cps ! i) ''id'')" "listed projects (prop_of (cps ! i) ''id'') = Some p" for p
      proof -
        from st that have "out ! i = mergeDetails (cps ! i) p"
          by blast
        then show ?thesis
          by (simp add: mergeDetails_state mergeDetails_other)
      qed
      with st show ?thesis
        by blast
    qed
    with len show "length out = length cps \<and> (\<forall>i<length cps. ?P out i)"
      by blast
  qed
  have B: "\<forall>e. res = Inl e \<longrightarrow>
        (\<exists>cp\<in>set cps. truthy (prop_of cp ''id'') \<and> listed projects (prop_of cp ''id'') = None
           \<and> \<not> inherited (prop_of cp ''id'')
           \<and> api_getProject ac (prop_of cp ''id'') tok = Inl e
           \<and> statusCode e \<noteq> JNum 404 \<and> statusCode e \<noteq> JNum 403)"
  proof (intro allI impI)
    fix e
    assume "res = Inl e"
    with res have "promise_all (map ?f cps) = Inl e"
      by simp
    then have "Inl e \<in> set (map ?f cps)"
      by (rule promise_all_Inl)
    then obtain cp where "cp \<in> set cps" "?f cp = Inl e"
      by auto
    then show "\<exists>cp\<in>set cps. truthy (prop_of cp ''id'') \<and> listed projects (prop_of cp ''id'') = None
           \<and> \<not> inherited (prop_of cp ''id'')
           \<and> api_getProject ac (prop_of cp ''id'') tok = Inl e
           \<and> statusCode e \<noteq> JNum 404 \<and> statusCode e \<noteq> JNum 403"
      using statusOf_Inl [of ac projects tok cp e] by blast
  qed
  have C: "\<forall>cp\<in>set cps. \<forall>e.
        truthy (prop_of cp ''id'') \<and> listed projects (prop_of cp ''id'') = None
          \<and> \<not> inherited (prop_of cp ''id'')
          \<and> api_getProject ac (prop_of cp ''id'') tok = Inl e
          \<and> statusCode e \<noteq> JNum 404 \<and> statusCode e \<noteq> JNum 403
        \<longrightarrow> (\<exists>e'. res = Inl e')"
  proof (intro ballI allI impI)
    fix cp e
    assume cp: "cp \<in> set cps"
      and "truthy (prop_of cp ''id'') \<and> listed projects (prop_of cp ''id'') = None
          \<and> \<not> inherited (prop_of cp ''id'')
          \<and> api_getProject ac (prop_of cp ''id'') tok = Inl e
          \<and> statusCode e \<noteq> JNum 404 \<and> statusCode e \<noteq> JNum 403"
    then have "?f cp = Inl e"
      by (simp add: statusOf_Inl)
    with cp have "Inl e \<in> ?f ` set cps"
      by (rule_tac x = cp in image_eqI) simp_all
    then have "Inl e \<in> set (map ?f cps)"
      by simp
    then show "\<exists>e'. res = Inl e'"
      unfolding res by (rule promise_all_rejects)
  qed
  have D: "\<forall>k t. GetProject k t \<in> set calls \<longleftrightarrow>
        t = tok \<and> (\<exists>cp\<in>set cps. truthy (prop_of cp ''id'') \<and> k = prop_of cp ''id''
           \<and> listed projects k = None \<and> \<not> inherited k)"
    unfolding calls by (auto simp: statusOf_calls split: if_splits)
  have L: "\<forall>v. listed projects v =
          find (\<lambda>p. toPropertyKey (prop_of p ''id'') = toPropertyKey v) (rev projects)"
    by (simp add: listed_def)
  have E: "\<forall>cp. \<not> truthy (prop_of cp ''id'') \<longrightarrow>
        getProjectStatus ac cp = ([], Inr (mergeState cp (JStr ''VALID'')))"
    by (simp add: getProjectStatus_def)
  have F: "\<forall>cp. truthy (prop_of cp ''id'') \<longrightarrow>
        getProjectStatus ac cp =
          ([EnsureAuthToken, GetProject (prop_of cp ''id'') tok],
           case api_getProject ac (prop_of cp ''id'') tok of
             Inr p \<Rightarrow> Inr (mergeDetails cp p)
           | Inl e \<Rightarrow>
               if statusCode e = JNum 404 then Inr (mergeState cp (JStr ''INVALID''))
               else if statusCode e = JNum 403 then Inr (mergeState cp (JStr ''UNAUTHORIZED''))
               else Inl e)"
    using tok by (simp add: getProjectStatus_def getProject_def)
  have G: "\<forall>cp v. prop_of (mergeState cp v) ''state'' = v"
    by (simp add: mergeState_state)
  show ?thesis
    by (intro conjI A B C D L E F G)
qed

text \<open>
  The theorem at a concrete client, with one project of each kind. The remote listing has
  two records of id \<open>abc123\<close> (the last one answers) and one of id \<open>'123'\<close>, which
  answers for the client id \<open>123\<close>. The id \<open>constructor\<close> is not listed, and the API would
  answer a lookup of it with status 500: the call resolves all the same, with state
  \<open>VALID\<close> for that project and no lookup of it.
\<close>

theorem status_reconciliation_witness:
  "case getProjectStatuses example_client example_projects of
     (calls, Inr out) \<Rightarrow>
        length out = 6
      \<and> out ! 0 = mergeState (example_projects ! 0) (JStr ''VALID'')
      \<and> prop_of (out ! 1) ''state'' = JStr ''VALID''
      \<and> prop_of (out ! 1) ''name'' = JStr ''remote''
      \<and> prop_of (out ! 1) ''path'' = JStr ''/b''
      \<and> out ! 2 = mergeState (example_projects ! 2) (JStr ''INVALID'')
      \<and> out ! 3 = mergeState (example_projects ! 3) (JStr ''UNAUTHORIZED'')
      \<and> out ! 4 = mergeState (example_projects ! 4) (JStr ''VALID'')
      \<and> prop_of (out ! 5) ''state'' = JStr ''VALID''
      \<and> prop_of (out ! 5) ''name'' = JStr ''numbered''
      \<and> GetProject (JStr ''abc123'') (JStr ''token'') \<notin> set calls
      \<and> GetProject (JStr ''gone00'') (JStr ''token'') \<in> set calls
      \<and> GetProject (JStr ''constructor'') (JStr ''token'') \<notin> set calls
      \<and> GetProject (JNum 123) (JStr ''token'') \<notin> set calls
      \<and> api_getProject example_client (JStr ''constructor'') (JStr ''token'')
          = Inl (Error ''server error'' (JNum 500))
   | (calls, Inl e) \<Rightarrow> False"
proof -
  let ?ps = "[[(''id'', JStr ''abc123''), (''name'', JStr ''stale'')],
              [(''id'', JStr ''123''), (''name'', JStr ''numbered'')],
              [(''id'', JStr ''abc123''), (''name'', JStr ''remote'')]]"
  obtain calls res where run: "getProjectStatuses example_client example_projects = (calls, res)"
    by (cases "getProjectStatuses example_client example_projects")
  have tok: "user_ensureAuthToken example_client = Inr (JStr ''token'')"
    by (simp add: example_client_def)
  have lst: "api_getProjects example_client (JStr ''token'') = Inr (Some ?ps)"
    by (simp add: example_client_def)
  have ps: "?ps = (case Some ?ps of None \<Rightarrow> [] | Some ps \<Rightarrow> ps)"
    by simp
  have key: "number_toString 123 = ''123''"
    by code_simp
  have found: "listed ?ps (JStr ''abc123'') = Some [(''id'', JStr ''abc123''), (''name'', JStr ''remote'')]"
    "listed ?ps (JNum 123) = Some [(''id'', JStr ''123''), (''name'', JStr ''numbered'')]"
    and missing: "listed ?ps (JStr ''gone00'') = None" "listed ?ps (JStr ''priv00'') = None"
      "listed ?ps (JStr ''constructor'') = None"
    by (simp_all add: listed_def prop_of_def key)
  have inh: "inherited (JStr ''constructor'')" "\<not> inherited (JStr ''gone00'')"
    "\<not> inherited (JStr ''priv00'')"
    by (simp_all add: inherited_def object_prototype_methods_def)
  have "res = snd (getProjectStatuses example_client example_projects)"
    using run by simp
  also have "\<dots> = Inr (map (\<lambda>cp. case snd (statusOf example_client (keyBy ?ps ''id'') (JStr ''token'') cp) of Inr ob \<Rightarrow> ob) example_projects)"
    unfolding getProjectStatuses_eq [OF tok lst]
    by (simp add: example_projects_def statusOf_keyBy prop_of_def found missing inh
        getProject_def example_client_def)
  finally obtain out where out: "res = Inr out"
    by blast
  have api: "api_getProject example_client (JStr ''gone00'') (JStr ''token'') = Inl (Error ''not found'' (JNum 404))"
    "api_getProject example_client (JStr ''priv00'') (JStr ''token'') = Inl (Error ''forbidden'' (JNum 403))"
    "api_getProject example_client (JStr ''constructor'') (JStr ''token'') = Inl (Error ''server error'' (JNum 500))"
    by (simp_all add: example_client_def)
  have ids: "prop_of (example_projects ! 0) ''id'' = Undefined"
    "prop_of (example_projects ! 1) ''id'' = JStr ''abc123''"
    "prop_of (example_projects ! 2) ''id'' = JStr ''gone00''"
    "prop_of (example_projects ! 3) ''id'' = JStr ''priv00''"
    "prop_of (example_projects ! 4) ''id'' = JStr ''constructor''"
    "prop_of (example_projects ! 5) ''id'' = JNum 123"
    "length example_projects = 6"
    by (simp_all add: example_projects_def prop_of_def)
  note sr = status_reconciliation [OF tok lst ps run]
  note A = sr [THEN conjunct1, rule_format, OF out]
  note len = A [THEN conjunct1]
  note each = A [THEN conjunct2, rule_format]
  note calls = sr [THEN conjunct2, THEN conjunct2, THEN conjunct2, THEN conjunct1, rule_format]
  have o0: "out ! 0 = mergeState (example_projects ! 0) (JStr ''VALID'')"
    using each [of 0] by (simp add: ids)
  have o1: "prop_of (out ! 1) ''state'' = JStr ''VALID''"
    "prop_of (out ! 1) ''name'' = JStr ''remote''"
    "prop_of (out ! 1) ''path'' = JStr ''/b''"
    using each [of 1] by (simp_all add: ids found example_projects_def mergeDetails_state mergeDetails_other prop_of_Cons prop_of_Nil)
  have o2: "out ! 2 = mergeState (example_projects ! 2) (JStr ''INVALID'')"
    using each [of 2] by (simp add: ids missing inh api)
  have o3: "out ! 3 = mergeState (example_projects ! 3) (JStr ''UNAUTHORIZED'')"
    using each [of 3] by (simp add: ids missing inh api)
  have o4: "out ! 4 = mergeState (example_projects ! 4) (JStr ''VALID'')"
    using each [of 4] by (simp add: ids missing inh)
  have o5: "prop_of (out ! 5) ''state'' = JStr ''VALID''"
    "prop_of (out ! 5) ''name'' = JStr ''numbered''"
    using each [of 5] by (simp_all add: ids found example_projects_def mergeDetails_state mergeDetails_other prop_of_Cons prop_of_Nil)
  have c1: "GetProject (JStr ''abc123'') (JStr ''token'') \<notin> set calls"
    by (simp add: calls found)
  have c2: "GetProject (JStr ''gone00'') (JStr ''token'') \<in> set calls"
    by (simp add: calls missing inh example_projects_def prop_of_def)
  have c3: "GetProject (JStr ''constructor'') (JStr ''token'') \<notin> set calls"
    by (simp add: calls inh)
  have c4: "GetProject (JNum 123) (JStr ''token'') \<notin> set calls"
    by (simp add: calls found)
  show ?thesis
    using run out len o0 o1 o2 o3 o4 o5 c1 c2 c3 c4 api(3) by (simp add: ids)
qed

section \<open>Properties of the sequencing operators\<close>

lemmas act_defs = ret_def throw_def lift_def bnd_def read_def modify_def emit_def call_def
  settle_def

lemma bnd_InrD:
  assumes "bnd m f s = (Inr y, s'')"
  obtains x s' where "m s = (Inr x, s')" and "f x s' = (Inr y, s'')"
  using assms by (auto simp: bnd_def split: prod.splits sum.splits)

lemma bnd_read: "bnd (read f) g s = g (f s) s"
  by (simp add: act_defs)

lemma bnd_modify: "bnd (modify f) g s = g () (f s)"
  by (simp add: act_defs)

lemma bnd_emit: "bnd (emit ev) g s = g () (s\<lparr>trace := trace s @ [ev]\<rparr>)"
  by (simp add: act_defs)

named_theorems frame_intros

lemma keepsD: "keeps P m \<Longrightarrow> P s \<Longrightarrow> m s = (r, s') \<Longrightarrow> P s'"
  unfolding keeps_def by (metis snd_conv)

lemma keeps_eqD: "keeps (\<lambda>s'. f s' = f s) m \<Longrightarrow> f (snd (m s)) = f s"
  by (simp add: keeps_def)

lemma keeps_ret [frame_intros]: "keeps P (ret x)"
  by (simp add: keeps_def act_defs)

lemma keeps_throw [frame_intros]: "keeps P (throw e)"
  by (simp add: keeps_def act_defs)

lemma keeps_lift [frame_intros]: "keeps P (lift r)"
  by (simp add: keeps_def act_defs)

lemma keeps_read [frame_intros]: "keeps P (read f)"
  by (simp add: keeps_def act_defs)

lemma keeps_modify: "(\<And>s. P s \<Longrightarrow> P (g s)) \<Longrightarrow> keeps P (modify g)"
  by (simp add: keeps_def act_defs)

lemma keeps_emit: "(\<And>s. P s \<Longrightarrow> P (s\<lparr>trace := trace s @ [ev]\<rparr>)) \<Longrightarrow> keeps P (emit ev)"
  by (simp add: keeps_def act_defs)

lemma keeps_bnd [frame_intros]:
  assumes "keeps P m" and "\<And>x. keeps P (g x)"
  shows "keeps P (bnd m g)"
  using assms by (auto simp: keeps_def bnd_def split: prod.splits sum.splits)

lemma keeps_call: "(\<And>s. P s \<Longrightarrow> P (s\<lparr>trace := trace s @ [ev]\<rparr>)) \<Longrightarrow> keeps P (call ev r)"
  unfolding call_def by (intro keeps_bnd keeps_emit keeps_lift)

lemma keeps_settle [frame_intros]: "keeps P m \<Longrightarrow> keeps P (settle m)"
  by (auto simp: keeps_def settle_def split: prod.splits)

lemma keeps_if [frame_intros]: "keeps P a \<Longrightarrow> keeps P b \<Longrightarrow> keeps P (if c then a else b)"
  by simp

lemma keeps_case_sum [frame_intros]:
  "(\<And>e. keeps P (a e)) \<Longrightarrow> (\<And>x. keeps P (b x)) \<Longrightarrow> keeps P (case r of Inl e \<Rightarrow> a e | Inr x \<Rightarrow> b x)"
  by (cases r) simp_all

lemma keeps_case_option [frame_intros]:
  "keeps P a \<Longrightarrow> (\<And>x. keeps P (b x)) \<Longrightarrow> keeps P (case r of None \<Rightarrow> a | Some x \<Rightarrow> b x)"
  by (cases r) simp_all

lemma keeps_case_prod [frame_intros]:
  "(\<And>a b. keeps P (g a b)) \<Longrightarrow> keeps P (case p of (a, b) \<Rightarrow> g a b)"
  by (cases p) simp

lemma keeps_case_jsval [frame_intros]:
  "keeps P a1 \<Longrightarrow> keeps P a2 \<Longrightarrow> (\<And>x. keeps P (a3 x)) \<Longrightarrow> (\<And>x. keeps P (a4 x))
    \<Longrightarrow> (\<And>x. keeps P (a5 x)) \<Longrightarrow> (\<And>x. keeps P (a6 x)) \<Longrightarrow> (\<And>x. keeps P (a7 x))
    \<Longrightarrow> (\<And>x. keeps P (a8 x))
    \<Longrightarrow> keeps P (case v of Undefined \<Rightarrow> a1 | Null \<Rightarrow> a2 | JBool x \<Rightarrow> a3 x | JNum x \<Rightarrow> a4 x
          | JStr x \<Rightarrow> a5 x | JArr x \<Rightarrow> a6 x | JObj x \<Rightarrow> a7 x | JFun x \<Rightarrow> a8 x)"
  by (cases v) simp_all

lemma keeps_sequence: "(\<And>m. m \<in> set ms \<Longrightarrow> keeps P m) \<Longrightarrow> keeps P (sequence ms)"
  by (induction ms) (auto intro!: frame_intros)

text \<open>Which components each method leaves alone.\<close>

lemma keeps_get [frame_intros]: "keeps P get_server" "keeps P get_automation" "keeps P get_cfg"
  unfolding get_server_def get_automation_def get_cfg_def by (intro frame_intros)+


lemma savedState_get_keeps:
  assumes "\<And>s ev. P s \<Longrightarrow> P (s\<lparr>trace := trace s @ [ev]\<rparr>)"
  shows "keeps P (savedState_get root headless)"
  unfolding savedState_get_def by (intro frame_intros keeps_emit assms)

lemma setSavedState_keeps:
  assumes "\<And>s ev. P s \<Longrightarrow> P (s\<lparr>trace := trace s @ [ev]\<rparr>)"
  shows "keeps P (setSavedState cfg)"
  unfolding setSavedState_def by (intro frame_intros savedState_get_keeps assms)

lemma setNewProject_keeps:
  assumes "\<And>s ev. P s \<Longrightarrow> P (s\<lparr>trace := trace s @ [ev]\<rparr>)"
  shows "keeps P (setNewProject env cfg)"
  unfolding setNewProject_def Let_def by (intro frame_intros keeps_call assms)

lemma getConfig_keeps:
  assumes "\<And>s ev. P s \<Longrightarrow> P (s\<lparr>trace := trace s @ [ev]\<rparr>)"
  shows "keeps P (getConfig env options_arg)"
  unfolding getConfig_def Let_def
  by (intro frame_intros keeps_call setNewProject_keeps setSavedState_keeps assms)

text \<open>The plugin initialisation emits five kinds of events and changes nothing else.\<close>

lemma startCtDevServer_keeps:
  assumes "\<And>s ev. ev \<in> {PluginsInit, SpecsFind, NewSpecsStore, DevServerStart, StoreSpecFiles}
       \<Longrightarrow> P s \<Longrightarrow> P (s\<lparr>trace := trace s @ [ev]\<rparr>)"
  shows "keeps P (startCtDevServer env specs config)"
  unfolding startCtDevServer_def
  by (intro frame_intros keeps_call; (rule assms, simp, assumption))

lemma initSpecStore_keeps:
  assumes "\<And>s ev. ev \<in> {PluginsInit, SpecsFind, NewSpecsStore, DevServerStart, StoreSpecFiles}
       \<Longrightarrow> P s \<Longrightarrow> P (s\<lparr>trace := trace s @ [ev]\<rparr>)"
  shows "keeps P (initSpecStore env specs config)"
  unfolding initSpecStore_def
  by (intro frame_intros keeps_call keeps_emit startCtDevServer_keeps; (rule assms, simp, assumption))

lemma initPlugins_keeps:
  assumes "\<And>s ev. ev \<in> {PluginsInit, SpecsFind, NewSpecsStore, DevServerStart, StoreSpecFiles}
       \<Longrightarrow> P s \<Longrightarrow> P (s\<lparr>trace := trace s @ [ev]\<rparr>)"
  shows "keeps P (initPlugins env cfg opts)"
  unfolding initPlugins_def Let_def
  by (intro frame_intros keeps_call initSpecStore_keeps; (rule assms, simp, assumption))

lemma onError_keeps:
  assumes "\<And>s ev. P s \<Longrightarrow> P (s\<lparr>trace := trace s @ [ev]\<rparr>)"
  shows "keeps P (onError err opts)"
  unfolding onError_def by (intro frame_intros keeps_emit assms)

lemma onChange_keeps:
  assumes "\<And>s ev. P s \<Longrightarrow> P (s\<lparr>trace := trace s @ [ev]\<rparr>)"
  shows "keeps P (onChange env w)"
  by (cases w) (auto intro!: frame_intros keeps_emit initPlugins_keeps assms)

lemma fileChanged_keeps:
  assumes "\<And>s ev. P s \<Longrightarrow> P (s\<lparr>trace := trace s @ [ev]\<rparr>)"
  shows "keeps P (fileChanged env path)"
  unfolding fileChanged_def
  by (intro frame_intros keeps_sequence) (auto intro!: onChange_keeps assms)

lemma onOpen_keeps:
  assumes "\<And>s ev. P s \<Longrightarrow> P (s\<lparr>trace := trace s @ [ev]\<rparr>)"
    and "\<And>s v. P s \<Longrightarrow> P (s\<lparr>priv_server := v\<rparr>)"
  shows "keeps P (onOpen env cfg opts)"
  unfolding onOpen_def
  by (intro frame_intros keeps_call keeps_modify initPlugins_keeps assms)

lemma watchSettings_keeps:
  assumes "\<And>s ev. P s \<Longrightarrow> P (s\<lparr>trace := trace s @ [ev]\<rparr>)"
    and "\<And>s v. P s \<Longrightarrow> P (s\<lparr>watchers := v\<rparr>)"
  shows "keeps P (watchSettings env f opts)"
  unfolding watchSettings_def Let_def
  by (intro frame_intros keeps_emit keeps_modify assms)

lemma watchSettingsAndStartWebsockets_keeps:
  assumes "\<And>s ev. P s \<Longrightarrow> P (s\<lparr>trace := trace s @ [ev]\<rparr>)"
    and "\<And>s v. P s \<Longrightarrow> P (s\<lparr>watchers := v\<rparr>)"
    and "\<And>s v. P s \<Longrightarrow> P (s\<lparr>priv_automation := v\<rparr>)"
  shows "keeps P (watchSettingsAndStartWebsockets env opts cfg)"
  unfolding watchSettingsAndStartWebsockets_def Let_def
  by (intro frame_intros keeps_emit keeps_call keeps_modify watchSettings_keeps assms)

lemma checkSupportFile_keeps:
  assumes "\<And>s ev. P s \<Longrightarrow> P (s\<lparr>trace := trace s @ [ev]\<rparr>)"
  shows "keeps P (checkSupportFile env cfg)"
  unfolding checkSupportFile_def Let_def by (intro frame_intros keeps_emit assms)

lemma watchPluginsFile_keeps:
  assumes "\<And>s ev. P s \<Longrightarrow> P (s\<lparr>trace := trace s @ [ev]\<rparr>)"
    and "\<And>s v. P s \<Longrightarrow> P (s\<lparr>watchers := v\<rparr>)"
  shows "keeps P (watchPluginsFile env cfg opts)"
  unfolding watchPluginsFile_def by (intro frame_intros keeps_emit keeps_modify assms)

lemma scaffold_keeps:
  assumes "\<And>s ev. P s \<Longrightarrow> P (s\<lparr>trace := trace s @ [ev]\<rparr>)"
  shows "keeps P (scaffold env cfg)"
  unfolding scaffold_def by (intro frame_intros keeps_call assms)

lemma savedState_set_get_keeps:
  assumes "\<And>s ev. P s \<Longrightarrow> P (s\<lparr>trace := trace s @ [ev]\<rparr>)"
    and "\<And>s v. P s \<Longrightarrow> P (s\<lparr>persisted := v\<rparr>)"
  shows "keeps P (savedState_set_get root headless changes)"
  unfolding savedState_set_get_def by (intro frame_intros keeps_emit keeps_modify assms)

lemma saveState_keeps:
  assumes "\<And>s ev. P s \<Longrightarrow> P (s\<lparr>trace := trace s @ [ev]\<rparr>)"
    and "\<And>s v. P s \<Longrightarrow> P (s\<lparr>persisted := v\<rparr>)"
    and "\<And>s v. P s \<Longrightarrow> P (s\<lparr>priv_cfg := Some v\<rparr>)"
  shows "keeps P (saveState changes)"
  unfolding saveState_def
  by (intro frame_intros keeps_modify savedState_set_get_keeps assms)

lemma current_keeps: "keeps P (current cfg)"
  unfolding current_def by (intro frame_intros)

lemma optional_call_keeps:
  assumes "\<And>s ev. P s \<Longrightarrow> P (s\<lparr>trace := trace s @ [ev]\<rparr>)"
  shows "keeps P (optional_call f ev r)"
  unfolding optional_call_def by (intro frame_intros keeps_call assms)

lemma close_project_keeps:
  assumes "\<And>s ev. P s \<Longrightarrow> P (s\<lparr>trace := trace s @ [ev]\<rparr>)"
    and "\<And>s v. P s \<Longrightarrow> P (s\<lparr>spec := v\<rparr>)"
    and "\<And>s v. P s \<Longrightarrow> P (s\<lparr>browser := v\<rparr>)"
    and "\<And>s v. P s \<Longrightarrow> P (s\<lparr>watchers := v\<rparr>)"
    and "\<And>s v. P s \<Longrightarrow> P (s\<lparr>cwd := v\<rparr>)"
  shows "keeps P (close_project env)"
  unfolding close_project_def Let_def
  by (intro frame_intros keeps_emit keeps_call keeps_modify optional_call_keeps getConfig_keeps assms)

lemma reset_project_keeps:
  assumes "\<And>s ev. P s \<Longrightarrow> P (s\<lparr>trace := trace s @ [ev]\<rparr>)"
    and "\<And>s v. P s \<Longrightarrow> P (s\<lparr>spec := v\<rparr>)"
    and "\<And>s v. P s \<Longrightarrow> P (s\<lparr>browser := v\<rparr>)"
  shows "keeps P (reset_project env)"
  unfolding reset_project_def
  by (intro frame_intros keeps_call keeps_modify assms)



section \<open>What holds when a method returns\<close>

lemma wpD: "wp m Q s \<Longrightarrow> m s = (Inr y, s') \<Longrightarrow> Q y s'"
  by (simp add: wp_def)

lemma wp_bnd: "wp m (\<lambda>x. wp (g x) Q) s \<Longrightarrow> wp (bnd m g) Q s"
  by (auto simp: wp_def bnd_def split: prod.splits sum.splits)

lemma wp_ret: "Q x s \<Longrightarrow> wp (ret x) Q s"
  by (simp add: wp_def act_defs)

lemma wp_read: "Q (f s) s \<Longrightarrow> wp (read f) Q s"
  by (simp add: wp_def act_defs)

lemma wp_modify: "Q () (g s) \<Longrightarrow> wp (modify g) Q s"
  by (simp add: wp_def act_defs)

lemma wp_emit: "Q () (s\<lparr>trace := trace s @ [ev]\<rparr>) \<Longrightarrow> wp (emit ev) Q s"
  by (simp add: wp_def act_defs)

lemma wp_lift: "(\<And>x. r = Inr x \<Longrightarrow> Q x s) \<Longrightarrow> wp (lift r) Q s"
  by (cases r) (simp_all add: wp_def act_defs)

lemma wp_settle: "(\<And>r s'. m s = (r, s') \<Longrightarrow> Q r s') \<Longrightarrow> wp (settle m) Q s"
  by (cases "m s") (simp add: wp_def settle_def)

subsection \<open>Results of the methods that \<open>open\<close> calls\<close>

lemma getConfig_state:
  assumes "getConfig env options_arg s = (Inr cfg, s')"
  shows "prop_of cfg ''state'' = state_seen s"
  using assms
  by (auto simp: state_seen_def getConfig_def setNewProject_def setSavedState_def savedState_get_def act_defs
      Let_def prop_of_set_prop split: option.splits sum.splits if_splits)

lemma wp_getConfig:
  assumes "P s"
    and "\<And>s ev. P s \<Longrightarrow> P (s\<lparr>trace := trace s @ [ev]\<rparr>)"
    and "\<And>cfg s'. P s' \<Longrightarrow> prop_of cfg ''state'' = state_seen s \<Longrightarrow> Q cfg s'"
  shows "wp (getConfig env options_arg) Q s"
proof (cases "getConfig env options_arg s")
  case (Pair r s')
  have "keeps P (getConfig env options_arg)"
    by (rule getConfig_keeps) (erule assms(2))
  with Pair assms(1) have "P s'"
    by (rule_tac keepsD)
  with Pair assms(3) getConfig_state [of env options_arg s _ s'] show ?thesis
    by (cases r) (simp_all add: wp_def)
qed

lemma initSpecStore_state:
  assumes "initSpecStore env specs config s = (Inr c, s')"
  shows "prop_of c ''state'' = prop_of config ''state''"
  using assms
  by (auto simp: initSpecStore_def startCtDevServer_def act_defs prop_of_set_prop
      split: sum.splits if_splits)

lemma js_set_Inr: "js_set v k x = Inr r \<Longrightarrow> \<exists>m. r = JObj m \<or> r = v"
  by (cases v) auto

lemma initPlugins_state:
  assumes "\<And>c m. prop_of (config_updateWithPluginValues env c m) ''state'' = prop_of c ''state''"
    and "initPlugins env cfg opts s = (Inr c, s')"
  shows "prop_of c ''state'' = prop_of cfg ''state''"
proof -
  from assms(2) obtain u s1 where "initSpecStore env (fst u) (snd u) s1 = (Inr c, s')"
    and "prop_of (snd u) ''state'' = prop_of cfg ''state''"
    unfolding initPlugins_def Let_def
    apply (elim bnd_InrD)
    apply (auto simp: act_defs assms(1) prop_of_set_prop split: if_splits sum.splits)
    done
  then show ?thesis
    using initSpecStore_state by fastforce
qed

lemma injectCtSpecificConfig_state:
  "injectCtSpecificConfig cfg = Inr c \<Longrightarrow> prop_of c ''state'' = prop_of cfg ''state''"
  by (auto simp: injectCtSpecificConfig_def Let_def prop_of_set_prop split: sum.splits)

lemma onOpen_state:
  assumes "\<And>c m. prop_of (config_updateWithPluginValues env c m) ''state'' = prop_of c ''state''"
    and "onOpen env cfg1 opts s = (Inr (cfg, port, warning), s')"
  shows "prop_of cfg ''state'' = prop_of cfg1 ''state''"
  using assms(2) unfolding onOpen_def
  apply (elim bnd_InrD)
  apply (auto simp: act_defs split: if_splits sum.splits prod.splits
      dest!: initPlugins_state [OF assms(1)] injectCtSpecificConfig_state)
  done

lemma saveState_result:
  assumes "saveState changes s = (Inr st, s')"
  shows "\<exists>c. priv_cfg s = Some c
           \<and> st = extend_obj (persisted s (projectRoot s)) changes
           \<and> s' = s\<lparr>trace := trace s @ [SavedStateCreate (projectRoot s) (prop_of c ''isTextTerminal''),
                                          SavedStateSet changes, SavedStateGet],
                     persisted := (persisted s)(projectRoot s := st),
                     priv_cfg := Some (set_prop c ''state'' (JObj st))\<rparr>"
  using assms
  by (auto simp: saveState_def savedState_set_get_def get_cfg_def ensureProp_def act_defs
      split: option.splits sum.splits if_splits)

lemma saveState_throws:
  assumes "saveState changes s = (Inl e, s')"
  shows "s' = s"
  using assms
  by (auto simp: saveState_def savedState_set_get_def get_cfg_def ensureProp_def act_defs
      split: option.splits sum.splits if_splits)


lemma warnBrowsers_state: "prop_of (warnBrowsers env cfg) ''state'' = prop_of cfg ''state''"
  by (simp add: warnBrowsers_def prop_of_set_prop split: jsval.splits)

lemma warnBrowsers_state_if:
  "prop_of (if b then warnBrowsers env cfg else cfg) ''state'' = prop_of cfg ''state''"
  by (simp add: warnBrowsers_state)

lemma wp_onOpen:
  assumes "P s"
    and "\<And>s ev. P s \<Longrightarrow> P (s\<lparr>trace := trace s @ [ev]\<rparr>)"
    and "\<And>s v. P s \<Longrightarrow> P (s\<lparr>priv_server := v\<rparr>)"
    and "\<And>cfg port warning s'. P s' \<Longrightarrow>
      ((\<forall>c m. prop_of (config_updateWithPluginValues env c m) ''state'' = prop_of c ''state'')
         \<longrightarrow> prop_of cfg ''state'' = prop_of cfg1 ''state'')
      \<Longrightarrow> Q (cfg, port, warning) s'"
  shows "wp (onOpen env cfg1 opts) Q s"
proof (cases "onOpen env cfg1 opts s")
  case (Pair r s')
  have "keeps P (onOpen env cfg1 opts)"
    by (rule onOpen_keeps) (erule assms(2), erule assms(3))
  with Pair assms(1) have s': "P s'"
    by (rule_tac keepsD)
  show ?thesis
  proof (cases r)
    case (Inl e)
    with Pair show ?thesis by (simp add: wp_def)
  next
    case (Inr x)
    obtain cfg port warning where x: "x = (cfg, port, warning)"
      by (cases x)
    with Pair Inr have run: "onOpen env cfg1 opts s = (Inr (cfg, port, warning), s')"
      by simp
    have "(\<forall>c m. prop_of (config_updateWithPluginValues env c m) ''state'' = prop_of c ''state'')
         \<longrightarrow> prop_of cfg ''state'' = prop_of cfg1 ''state''"
      using onOpen_state [OF _ run] by blast
    from assms(4) [OF s' this, of port warning] Pair Inr x show ?thesis
      by (simp add: wp_def)
  qed
qed

lemma wp_keeps:
  assumes "keeps P m" and "P s" and "\<And>y s'. P s' \<Longrightarrow> Q y s'"
  shows "wp m Q s"
  using assms by (cases "m s") (auto simp: wp_def keeps_def split: sum.splits)

lemma wp_settle_keeps:
  assumes "keeps P m" and "P s" and "\<And>r s'. P s' \<Longrightarrow> Q r s'"
  shows "wp (settle m) Q s"
  using assms by (cases "m s") (auto simp: wp_def keeps_def settle_def)

lemma promise_all_void_Inr:
  "promise_all [void r1, void r2] = Inr x \<Longrightarrow> \<exists>y. r2 = Inr y"
  by (cases r1; cases r2) (simp_all add: void_def)

lemma wp_saveState_barrier:
  assumes "\<And>c x t. priv_cfg s = Some c \<Longrightarrow>
     wp (K x) Q (s\<lparr>trace := t,
                   persisted := (persisted s)(projectRoot s :=
                      extend_obj (persisted s (projectRoot s)) changes),
                   priv_cfg := Some (set_prop c ''state''
                      (JObj (extend_obj (persisted s (projectRoot s)) changes)))\<rparr>)"
  shows "wp (bnd (settle (saveState changes))
               (\<lambda>r2. bnd (lift (promise_all [void r1, void r2])) K)) Q s"
proof (rule wp_bnd, rule wp_settle, rule wp_bnd, rule wp_lift)
  fix r s' x
  assume run: "saveState changes s = (r, s')" and all: "promise_all [void r1, void r] = Inr x"
  from promise_all_void_Inr [OF all] obtain st where "r = Inr st"
    by blast
  with saveState_result [of changes s st s'] run assms [of _ x] show "wp (K x) Q s'"
    by auto
qed


lemma state_seen_this_options: "state_seen (s\<lparr>this_options := v\<rparr>) = state_seen s"
  by (simp add: state_seen_def split: option.splits)

lemma open_project_wp:
  "wp (open_project env opts)
     (\<lambda>r s'. clock s' = clock s \<and> projectRoot s' = projectRoot s \<and> projectType s' = projectType s
        \<and> (\<exists>c. priv_cfg s' = Some c \<and> prop_of c ''state'' = JObj (persisted s' (projectRoot s)))
        \<and> ((\<forall>c m. prop_of (config_updateWithPluginValues env c m) ''state'' = prop_of c ''state'')
             \<and> (\<forall>c. map_of (config_setUrls env c) ''state'' = None)
            \<longrightarrow> persisted s' = (persisted s)(projectRoot s :=
                   extend_obj (persisted s (projectRoot s))
                     (stateToSave_of (state_seen s) (clock s))))) s"
proof -
  define J0 where "J0 = (\<lambda>x::project. clock x = clock s \<and> projectRoot x = projectRoot s
      \<and> projectType x = projectType s \<and> persisted x = persisted s \<and> priv_cfg x = priv_cfg s)"
  define J1 where "J1 = (\<lambda>x::project. clock x = clock s \<and> projectRoot x = projectRoot s
      \<and> projectType x = projectType s \<and> persisted x = persisted s \<and> priv_cfg x \<noteq> None)"
  define J2 where "J2 = (\<lambda>x::project. clock x = clock s \<and> projectRoot x = projectRoot s
      \<and> projectType x = projectType s
      \<and> (\<exists>c. priv_cfg x = Some c \<and> prop_of c ''state'' = JObj (persisted x (projectRoot s)))
      \<and> ((\<forall>c m. prop_of (config_updateWithPluginValues env c m) ''state'' = prop_of c ''state'')
             \<and> (\<forall>c. map_of (config_setUrls env c) ''state'' = None)
            \<longrightarrow> persisted x = (persisted s)(projectRoot s :=
                   extend_obj (persisted s (projectRoot s))
                     (stateToSave_of (state_seen s) (clock s)))))"
  show ?thesis
    unfolding open_project_def Let_def
    apply (rule wp_bnd, rule wp_modify)
    apply (rule wp_bnd, rule wp_getConfig [where P = J0], simp add: J0_def, simp add: J0_def)
    apply (rule wp_bnd, rule wp_read)
    apply (rule wp_bnd, rule wp_emit)
    apply (rule wp_bnd, rule wp_modify)
    apply (rule wp_bnd, rule wp_keeps [where P = J0],
        (intro frame_intros keeps_call; simp add: J0_def), simp add: J0_def)
    apply (rule wp_bnd, rule wp_onOpen [where P = J0], simp, simp add: J0_def, simp add: J0_def)
    apply (simp only: prod.case)
    apply (rule wp_bnd, rule wp_modify)
    apply (rule wp_bnd, rule wp_keeps [where P = J1],
        (intro frame_intros keeps_emit; simp add: J1_def), simp add: J0_def J1_def)
    apply (rule wp_bnd, rule wp_modify)
    apply (rule wp_bnd, rule wp_read)
    apply (rule wp_bnd, rule wp_keeps [where P = J1],
        (rule watchSettingsAndStartWebsockets_keeps; simp add: J1_def), simp add: J1_def)
    apply (rule wp_bnd, rule wp_settle_keeps [where P = J1],
        (rule scaffold_keeps; simp add: J1_def), simp)
    apply (rule wp_saveState_barrier)
    apply (rule wp_bnd, rule wp_emit)
    apply (rule wp_bnd, simp only: current_def, rule wp_read)
    apply (rule wp_bnd, rule wp_settle_keeps [where P = J2])
      apply (rule checkSupportFile_keeps; simp add: J2_def)
     apply (auto simp: J0_def J1_def J2_def stateToSave_of_def prop_of_set_prop prop_of_extend_obj
        warnBrowsers_state_if state_seen_this_options)[1]
    apply (rule wp_bnd, rule wp_settle_keeps [where P = J2])
      apply (rule watchPluginsFile_keeps; simp add: J2_def)
     apply simp
    apply (rule wp_bnd, rule wp_lift)
    apply (rule wp_keeps [where P = J2])
      apply (intro frame_intros keeps_call; simp add: J2_def)
     apply simp
    apply (simp add: J2_def)
    done
qed

section \<open>The stored config and the accessors\<close>

text \<open>
  Claim C9. For every instance whose config snapshot has been stored (\<open>_cfg\<close> is set, as
  \<open>open\<close> does), every call \<open>getConfig(options)\<close>, for any argument, returns that stored
  snapshot; the state after the call is the state before it, so no collaborator was called:
  no config resolution, no scaffold check, no load of the saved state.
\<close>

theorem getConfig_returns_stored:
  "priv_cfg s = Some cfg \<Longrightarrow> getConfig env options_arg s = (Inr cfg, s)"
  by (simp add: getConfig_def act_defs Let_def)

text \<open>The theorem on the concrete project with a stored config, for the argument \<open>null\<close>.\<close>

theorem getConfig_returns_stored_witness:
  "priv_cfg (example_project\<lparr>priv_cfg := Some example_config\<rparr>) = Some example_config
   \<and> getConfig example_env Null (example_project\<lparr>priv_cfg := Some example_config\<rparr>)
       = (Inr example_config, example_project\<lparr>priv_cfg := Some example_config\<rparr>)"
  using getConfig_returns_stored [of "example_project\<lparr>priv_cfg := Some example_config\<rparr>"
      example_config example_env Null]
  by simp

text \<open>
  Claim C10. For every argument \<open>stateChanges\<close>, \<open>saveState(stateChanges)\<close> on an instance
  whose config has not been set throws, and the state after it is the state before it: nothing
  is written to the saved state and no collaborator is called. The same holds of
  \<open>removeScaffoldedFiles()\<close>. The throw is the one of the accessor \<open>cfg\<close>.
\<close>

theorem saveState_before_open:
  "priv_cfg s = None \<Longrightarrow>
     saveState stateChanges s = (Inl (Error ''ProjectBase#open must first be called'' Undefined), s)
   \<and> removeScaffoldedFiles env s = (Inl (Error ''ProjectBase#open must first be called'' Undefined), s)"
  by (simp add: saveState_def removeScaffoldedFiles_def get_cfg_def ensureProp_def act_defs)

text \<open>The theorem on the fresh concrete project.\<close>

theorem saveState_before_open_witness:
  "priv_cfg example_project = None
   \<and> saveState [(''appWidth'', JNum 800)] example_project
        = (Inl (Error ''ProjectBase#open must first be called'' Undefined), example_project)
   \<and> removeScaffoldedFiles example_env example_project
        = (Inl (Error ''ProjectBase#open must first be called'' Undefined), example_project)"
  using saveState_before_open [of example_project "[(''appWidth'', JNum 800)]" example_env]
  by (simp add: example_project_def)

section \<open>Closing an instance that was never opened\<close>

text \<open>
  Claim C2 says that \<open>close()\<close> on an instance on which \<open>open()\<close> never completed returns
  without throwing and releases nothing. The code releases nothing, but it throws: the first
  element of the array given to \<open>Promise.all\<close> reads the getter \<open>server\<close>, which throws
  while \<open>_server\<close> is unset, before the optional chaining \<open>?.\<close> can apply. The theorem is
  what the code does on every instance whose \<open>_server\<close> is unset.
\<close>

theorem close_never_opened:
  "priv_server s = None \<Longrightarrow>
     close_project env s
       = (Inl (Error ''ProjectBase#open must first be called'' Undefined),
          s\<lparr>spec := Null, browser := Null\<rparr>)"
  by (simp add: close_project_def get_server_def ensureProp_def act_defs Let_def)

text \<open>The theorem on the fresh concrete project: \<open>close()\<close> throws and leaves it as it was.\<close>

theorem close_never_opened_witness:
  "priv_server example_project = None
   \<and> close_project example_env example_project
       = (Inl (Error ''ProjectBase#open must first be called'' Undefined), example_project)"
  using close_never_opened [of example_project example_env]
  by (simp add: example_project_def)

section \<open>Reset\<close>

lemma reset_project_eq:
  assumes "priv_automation s = None \<or> automation_reset env = Inr ()"
    and "priv_server s = None \<or> server_reset env = Inr ()"
  shows "reset_project env s =
     (Inr (), s\<lparr>spec := Null, browser := Null,
               trace := trace s @ (if priv_automation s \<noteq> None then [AutomationReset] else [])
                                @ (if priv_server s \<noteq> None then [ServerReset] else [])\<rparr>)"
  using assms by (auto simp: reset_project_def act_defs)

lemma reset_project_nulls:
  "spec (snd (reset_project env s)) = Null \<and> browser (snd (reset_project env s)) = Null"
  by (simp add: reset_project_def act_defs split: sum.splits)

lemma times_keeps: "keeps P m \<Longrightarrow> keeps P (times n m)"
  by (induction n) (auto intro!: frame_intros)

lemma times_reset_nulls:
  "spec (snd (times (Suc n) (reset_project env) s)) = Null
   \<and> browser (snd (times (Suc n) (reset_project env) s)) = Null"
proof -
  obtain r s1 where s1: "reset_project env s = (r, s1)"
    by (cases "reset_project env s")
  with reset_project_nulls [of env s] have nulls: "spec s1 = Null \<and> browser s1 = Null"
    by simp
  have "keeps (\<lambda>x. spec x = Null \<and> browser x = Null) (times n (reset_project env))"
    by (rule times_keeps) (simp add: keeps_def reset_project_nulls)
  then have "spec (snd (times n (reset_project env) s1)) = Null
      \<and> browser (snd (times n (reset_project env) s1)) = Null"
    using nulls by (simp add: keeps_def)
  with s1 nulls show ?thesis
    by (cases r) (simp_all add: bnd_def)
qed

lemma times_reset:
  assumes "priv_automation s = None \<or> automation_reset env = Inr ()"
    and "priv_server s = None \<or> server_reset env = Inr ()"
  shows "times n (reset_project env) s =
     (Inr (), if n = 0 then s
              else s\<lparr>spec := Null, browser := Null,
                     trace := trace s @ concat (replicate n
                       ((if priv_automation s \<noteq> None then [AutomationReset] else [])
                        @ (if priv_server s \<noteq> None then [ServerReset] else [])))\<rparr>)"
  using assms
proof (induction n arbitrary: s)
  case 0
  then show ?case by (simp add: ret_def)
next
  case (Suc n)
  let ?E = "(if priv_automation s \<noteq> None then [AutomationReset] else [])
            @ (if priv_server s \<noteq> None then [ServerReset] else [])"
  let ?s1 = "s\<lparr>spec := Null, browser := Null, trace := trace s @ ?E\<rparr>"
  have r: "reset_project env s = (Inr (), ?s1)"
    using Suc.prems by (rule reset_project_eq)
  have "times (Suc n) (reset_project env) s = times n (reset_project env) ?s1"
    by (simp add: bnd_def r)
  also have "\<dots> = (Inr (), if n = 0 then ?s1
              else ?s1\<lparr>trace := trace ?s1 @ concat (replicate n ?E)\<rparr>)"
    using Suc.IH [of ?s1] Suc.prems by simp
  finally show ?case
    by (cases "n = 0") simp_all
qed

text \<open>
  Claim C6. \<open>reset()\<close> called any number of times (\<open>Suc n\<close>, at least once) leaves
  \<open>spec = null\<close> and \<open>browser = null\<close>; it never throws of its own, in particular not
  when there is no automation and no server: whenever each collaborator that exists returns from
  its own \<open>reset()\<close>, the calls return and the instance differs from the one before only in
  \<open>spec\<close>, \<open>browser\<close> and the record of calls, which is the same after one call as after
  many apart from the repeated events.
\<close>

theorem reset_idempotent:
  "spec (snd (times (Suc n) (reset_project env) s)) = Null
   \<and> browser (snd (times (Suc n) (reset_project env) s)) = Null
   \<and> ((priv_automation s = None \<or> automation_reset env = Inr ())
        \<and> (priv_server s = None \<or> server_reset env = Inr ())
      \<longrightarrow> times (Suc n) (reset_project env) s
            = (Inr (), s\<lparr>spec := Null, browser := Null,
                 trace := trace s @ concat (replicate (Suc n)
                    ((if priv_automation s \<noteq> None then [AutomationReset] else [])
                     @ (if priv_server s \<noteq> None then [ServerReset] else [])))\<rparr>))"
  using times_reset_nulls [of n env s] times_reset [of s env "Suc n"]
  by (simp del: times.simps replicate.simps)

text \<open>
  The theorem on the concrete project: three resets with a server, two with neither server
  nor automation.
\<close>

theorem reset_idempotent_witness:
  "times 3 (reset_project example_env) (example_project\<lparr>priv_server := Some ServerE2E\<rparr>)
     = (Inr (), example_project\<lparr>priv_server := Some ServerE2E,
                  trace := [ServerReset, ServerReset, ServerReset]\<rparr>)
   \<and> times 2 (reset_project example_env) example_project = (Inr (), example_project)"
proof -
  have "times (Suc 2) (reset_project example_env) (example_project\<lparr>priv_server := Some ServerE2E\<rparr>)
     = (Inr (), example_project\<lparr>priv_server := Some ServerE2E,
                  trace := [ServerReset, ServerReset, ServerReset]\<rparr>)"
    using reset_idempotent [of 2 example_env "example_project\<lparr>priv_server := Some ServerE2E\<rparr>"]
    by (simp add: example_project_def example_env_def numeral_2_eq_2 del: times.simps)
  moreover have "times (Suc 1) (reset_project example_env) example_project = (Inr (), example_project)"
    using reset_idempotent [of 1 example_env example_project]
    by (simp add: example_project_def del: times.simps)
  ultimately show ?thesis
    by (simp add: numeral_3_eq_3 numeral_2_eq_2 del: times.simps)
qed

section \<open>Component-testing viewport\<close>

lemma injectCtSpecificConfig_rawJson:
  "injectCtSpecificConfig cfg = Inr c \<Longrightarrow> prop_of c ''rawJson'' = prop_of cfg ''rawJson''"
  by (auto simp: injectCtSpecificConfig_def Let_def prop_of_set_prop split: sum.splits)

lemma injectCtSpecificConfig_viewport:
  assumes "prop_of cfg ''rawJson'' = JObj raw"
  shows "injectCtSpecificConfig cfg =
     Inr (set_prop
            (set_prop cfg ''viewportHeight''
               (if nullish (prop_of raw ''viewportHeight'') then JNum 500
                else prop_of raw ''viewportHeight''))
            ''viewportWidth''
            (if nullish (prop_of raw ''viewportWidth'') then JNum 500
             else prop_of raw ''viewportWidth''))"
  using assms by (simp add: injectCtSpecificConfig_def Let_def js_get_def)

lemma onOpen_ct_injected:
  assumes "projectType s = CT"
    and "onOpen env cfg0 opts s = (Inr (c, port, warning), s')"
  shows "\<exists>cfg. injectCtSpecificConfig cfg = Inr c"
  using assms(2) unfolding onOpen_def
  apply (elim bnd_InrD)
  apply (auto simp: act_defs assms(1) split: if_splits sum.splits prod.splits)
  done

text \<open>
  Claim C8. For every component-testing config with no explicit viewport dimensions (the
  \<open>rawJson\<close> of the config is an object whose \<open>viewportHeight\<close> and \<open>viewportWidth\<close>
  are \<open>null\<close> or \<open>undefined\<close>), \<open>injectCtSpecificConfig\<close> returns the config with
  \<open>viewportHeight = 500\<close> and \<open>viewportWidth = 500\<close> and every other property as it was;
  and the config that \<open>onOpen\<close> returns for a project of type \<open>ct\<close> has these values.
\<close>

theorem ct_viewport_defaults:
  "(prop_of cfg ''rawJson'' = JObj raw
      \<and> nullish (prop_of raw ''viewportHeight'') \<and> nullish (prop_of raw ''viewportWidth'')
    \<longrightarrow> (\<exists>c. injectCtSpecificConfig cfg = Inr c
           \<and> prop_of c ''viewportHeight'' = JNum 500 \<and> prop_of c ''viewportWidth'' = JNum 500
           \<and> (\<forall>k. k \<noteq> ''viewportHeight'' \<and> k \<noteq> ''viewportWidth'' \<longrightarrow> prop_of c k = prop_of cfg k)))
   \<and> (projectType s = CT
      \<and> onOpen env cfg0 opts s = (Inr (updatedCfg, port, warning), s')
      \<and> prop_of updatedCfg ''rawJson'' = JObj raw
      \<and> nullish (prop_of raw ''viewportHeight'') \<and> nullish (prop_of raw ''viewportWidth'')
    \<longrightarrow> prop_of updatedCfg ''viewportHeight'' = JNum 500
        \<and> prop_of updatedCfg ''viewportWidth'' = JNum 500)"
proof (intro conjI impI)
  assume a: "prop_of cfg ''rawJson'' = JObj raw
      \<and> nullish (prop_of raw ''viewportHeight'') \<and> nullish (prop_of raw ''viewportWidth'')"
  then show "\<exists>c. injectCtSpecificConfig cfg = Inr c
           \<and> prop_of c ''viewportHeight'' = JNum 500 \<and> prop_of c ''viewportWidth'' = JNum 500
           \<and> (\<forall>k. k \<noteq> ''viewportHeight'' \<and> k \<noteq> ''viewportWidth'' \<longrightarrow> prop_of c k = prop_of cfg k)"
    by (simp add: injectCtSpecificConfig_viewport prop_of_set_prop)
next
  assume b: "projectType s = CT
      \<and> onOpen env cfg0 opts s = (Inr (updatedCfg, port, warning), s')
      \<and> prop_of updatedCfg ''rawJson'' = JObj raw
      \<and> nullish (prop_of raw ''viewportHeight'') \<and> nullish (prop_of raw ''viewportWidth'')"
  then obtain cfg where inj: "injectCtSpecificConfig cfg = Inr updatedCfg"
    using onOpen_ct_injected by blast
  with b have "prop_of cfg ''rawJson'' = JObj raw"
    using injectCtSpecificConfig_rawJson [OF inj] by simp
  from injectCtSpecificConfig_viewport [OF this] inj b
  have "updatedCfg = set_prop (set_prop cfg ''viewportHeight'' (JNum 500)) ''viewportWidth'' (JNum 500)"
    by simp
  then show "prop_of updatedCfg ''viewportHeight'' = JNum 500"
    and "prop_of updatedCfg ''viewportWidth'' = JNum 500"
    by (simp_all add: prop_of_set_prop)
qed

lemma ct_onOpen_fst:
  "(case fst (onOpen example_env example_config [] ct_project) of
      Inr (c, port, warning) \<Rightarrow> prop_of c ''rawJson'' = JObj [] | Inl e \<Rightarrow> False)"
  by code_simp

text \<open>The theorem on the concrete component-testing project, whose \<open>rawJson\<close> is empty.\<close>

theorem ct_viewport_defaults_witness:
  "case fst (onOpen example_env example_config [] ct_project) of
     Inr (c, port, warning) \<Rightarrow>
       prop_of c ''viewportHeight'' = JNum 500 \<and> prop_of c ''viewportWidth'' = JNum 500
   | Inl e \<Rightarrow> False"
proof -
  obtain r s' where run: "onOpen example_env example_config [] ct_project = (r, s')"
    by (cases "onOpen example_env example_config [] ct_project")
  with ct_onOpen_fst obtain c port warning where r: "r = Inr (c, port, warning)"
    and raw: "prop_of c ''rawJson'' = JObj []"
    by (cases r) auto
  have ct: "projectType ct_project = CT"
    by (simp add: ct_project_def)
  from ct_viewport_defaults [where s = ct_project and env = example_env and ?cfg0.0 = example_config
      and opts = "[]" and updatedCfg = c and port = port and warning = warning and s' = s'
      and raw = "[]"]
    run r raw ct
  have "prop_of c ''viewportHeight'' = JNum 500 \<and> prop_of c ''viewportWidth'' = JNum 500"
    by (simp add: prop_of_Nil)
  with run r show ?thesis
    by simp
qed

section \<open>The lifecycle of the stored config\<close>

lemma open_project_keeps:
  assumes "\<And>s ev. P s \<Longrightarrow> P (s\<lparr>trace := trace s @ [ev]\<rparr>)"
    and "\<And>s v. P s \<Longrightarrow> P (s\<lparr>this_options := v\<rparr>)"
    and "\<And>s v. P s \<Longrightarrow> P (s\<lparr>cwd := v\<rparr>)"
    and "\<And>s v. P s \<Longrightarrow> P (s\<lparr>priv_server := v\<rparr>)"
    and "\<And>s v. P s \<Longrightarrow> P (s\<lparr>priv_automation := v\<rparr>)"
    and "\<And>s v. P s \<Longrightarrow> P (s\<lparr>watchers := v\<rparr>)"
    and "\<And>s v. P s \<Longrightarrow> P (s\<lparr>persisted := v\<rparr>)"
    and "\<And>s v. P s \<Longrightarrow> P (s\<lparr>priv_cfg := Some v\<rparr>)"
  shows "keeps P (open_project env opts)"
  unfolding open_project_def Let_def
  by (intro frame_intros keeps_emit keeps_call keeps_modify getConfig_keeps onOpen_keeps
      watchSettingsAndStartWebsockets_keeps scaffold_keeps saveState_keeps current_keeps
      checkSupportFile_keeps watchPluginsFile_keeps assms)

lemma open_project_stores:
  assumes "open_project env opts s = (Inr r, s')"
  shows "priv_cfg s' \<noteq> None"
  using wpD [OF open_project_wp assms] by auto

lemma setBrowsers_keeps:
  assumes "\<And>s ev. P s \<Longrightarrow> P (s\<lparr>trace := trace s @ [ev]\<rparr>)"
    and "\<And>s v. P s \<Longrightarrow> priv_cfg s \<noteq> None \<Longrightarrow> P (s\<lparr>priv_cfg := Some v\<rparr>)"
  shows "keeps P (setBrowsers env browsers)"
  unfolding setBrowsers_def
  by (intro frame_intros keeps_modify getConfig_keeps assms(1))
    (auto split: option.splits intro: assms(2))

lemma getSpecUrl_keeps:
  assumes "\<And>s ev. P s \<Longrightarrow> P (s\<lparr>trace := trace s @ [ev]\<rparr>)"
  shows "keeps P (getSpecUrl env p t)"
  unfolding getSpecUrl_def by (intro frame_intros getConfig_keeps assms)

lemma removeScaffoldedFiles_keeps:
  assumes "\<And>s ev. P s \<Longrightarrow> P (s\<lparr>trace := trace s @ [ev]\<rparr>)"
  shows "keeps P (removeScaffoldedFiles env)"
  unfolding removeScaffoldedFiles_def by (intro frame_intros keeps_call assms)

lemma ex_open_fst: "fst (open_project example_env [] example_project) = Inr Undefined"
  by code_simp

lemma ex_open: "open_project example_env [] example_project = (Inr Undefined, opened_example)"
  using ex_open_fst by (simp add: opened_example_def prod_eq_iff)

lemma opened_example_fields:
  "priv_server opened_example = Some ServerE2E"
  "projectType opened_example = E2E"
  "projectRoot opened_example = ''/proj''"
  "stored_prop opened_example ''isTextTerminal'' = Undefined"
  "stored_prop opened_example ''experimentalInteractiveRunEvents'' = Undefined"
  "stored_prop opened_example ''browserUrl'' = JStr ''http://localhost:2020/__/''"
  "stored_prop opened_example ''projectRoot'' = JStr ''/proj''"
  by code_simp+

lemma close_project_returns:
  assumes "priv_server s \<noteq> None" and "projectType s = E2E" and "priv_cfg s \<noteq> None"
    and "server_close env = Inr ()" and "watchers_close env = Inr ()"
    and "preprocessor_close env = Inr ()"
    and "stored_prop s ''isTextTerminal'' = Undefined"
    and "stored_prop s ''experimentalInteractiveRunEvents'' = Undefined"
  shows "fst (close_project env s) = Inr Undefined"
  using assms
  by (auto simp: close_project_def get_server_def ensureProp_def optional_call_def js_and_def
      getConfig_def stored_prop_def act_defs Let_def)

lemma ex_close_fst: "fst (close_project example_env opened_example) = Inr Undefined"
  using open_project_stores [OF ex_open]
  by (intro close_project_returns) (simp_all add: opened_example_fields example_env_def)

lemma ex_close: "close_project example_env opened_example = (Inr Undefined, closed_example)"
  using ex_close_fst by (simp add: closed_example_def prod_eq_iff)

lemma close_project_cfg: "priv_cfg (snd (close_project env s)) = priv_cfg s"
  by (rule keeps_eqD, rule close_project_keeps) simp_all

text \<open>
  Claim C3 says that the stored config is undefined before the first successful \<open>open()\<close>
  and again undefined after a successful \<open>close()\<close>. On the concrete project \<open>open()\<close>
  and then \<open>close()\<close> both complete, and the config stored by \<open>open()\<close> is still there:
  \<open>close()\<close> has no assignment to \<open>_cfg\<close>, and reads it through \<open>getConfig()\<close> for its
  \<open>after:run\<close> hook.
\<close>

theorem stored_config_counterexample:
  "fst (open_project example_env [] example_project) = Inr Undefined
   \<and> fst (close_project example_env opened_example) = Inr Undefined
   \<and> priv_cfg closed_example \<noteq> None
   \<and> stored_prop closed_example ''projectRoot'' = JStr ''/proj''"
proof -
  have "priv_cfg closed_example = priv_cfg opened_example"
    unfolding closed_example_def by (rule close_project_cfg)
  then show ?thesis
    using ex_open_fst ex_close_fst open_project_stores [OF ex_open] opened_example_fields
    by (simp add: stored_prop_def)
qed

text \<open>
  Claim C3 as amended. The stored config is undefined on a new instance; an \<open>open()\<close> that
  completes leaves it set; \<open>close()\<close>, \<open>reset()\<close>, \<open>getConfig()\<close>, \<open>getSpecUrl()\<close>,
  \<open>removeScaffoldedFiles()\<close> and the handlers of file changes never change whether it is set
  (they leave it as it is, whatever their outcome), so it stays set after a \<open>close()\<close>;
  \<open>saveState()\<close> and \<open>setBrowsers()\<close> leave an undefined config undefined, and they and
  \<open>open()\<close> leave a stored config stored.
\<close>

theorem stored_config_lifecycle:
  "(ProjectBase env w root ptype = Inr p \<longrightarrow> priv_cfg p = None)
   \<and> (open_project env opts s = (Inr r, s') \<longrightarrow> priv_cfg s' \<noteq> None)
   \<and> priv_cfg (snd (close_project env s)) = priv_cfg s
   \<and> priv_cfg (snd (reset_project env s)) = priv_cfg s
   \<and> priv_cfg (snd (getConfig env options_arg s)) = priv_cfg s
   \<and> priv_cfg (snd (getSpecUrl env path specType s)) = priv_cfg s
   \<and> priv_cfg (snd (removeScaffoldedFiles env s)) = priv_cfg s
   \<and> priv_cfg (snd (fileChanged env file s)) = priv_cfg s
   \<and> (priv_cfg s = None \<longrightarrow>
        priv_cfg (snd (saveState changes s)) = None
      \<and> priv_cfg (snd (setBrowsers env browsers s)) = None)
   \<and> (priv_cfg s \<noteq> None \<longrightarrow>
        priv_cfg (snd (saveState changes s)) \<noteq> None
      \<and> priv_cfg (snd (setBrowsers env browsers s)) \<noteq> None
      \<and> priv_cfg (snd (open_project env opts s)) \<noteq> None)"
proof -
  have 1: "ProjectBase env w root ptype = Inr p \<longrightarrow> priv_cfg p = None"
    by (auto simp: ProjectBase_def split: if_splits)
  have 2: "open_project env opts s = (Inr r, s') \<longrightarrow> priv_cfg s' \<noteq> None"
    using open_project_stores by blast
  have 3: "priv_cfg (snd (close_project env s)) = priv_cfg s"
    by (rule close_project_cfg)
  have 4: "priv_cfg (snd (reset_project env s)) = priv_cfg s"
    by (rule keeps_eqD, rule reset_project_keeps) simp_all
  have 5: "priv_cfg (snd (getConfig env options_arg s)) = priv_cfg s"
    by (rule keeps_eqD, rule getConfig_keeps) simp
  have 6: "priv_cfg (snd (getSpecUrl env path specType s)) = priv_cfg s"
    by (rule keeps_eqD, rule getSpecUrl_keeps) simp
  have 7: "priv_cfg (snd (removeScaffoldedFiles env s)) = priv_cfg s"
    by (rule keeps_eqD, rule removeScaffoldedFiles_keeps) simp
  have 8: "priv_cfg (snd (fileChanged env file s)) = priv_cfg s"
    by (rule keeps_eqD, rule fileChanged_keeps) simp
  have 9: "priv_cfg s = None \<longrightarrow>
        priv_cfg (snd (saveState changes s)) = None
      \<and> priv_cfg (snd (setBrowsers env browsers s)) = None"
  proof
    assume none: "priv_cfg s = None"
    have "keeps (\<lambda>x. priv_cfg x = None) (setBrowsers env browsers)"
      by (rule setBrowsers_keeps) simp_all
    with none have "priv_cfg (snd (setBrowsers env browsers s)) = None"
      by (simp add: keeps_def)
    moreover from none have "priv_cfg (snd (saveState changes s)) = None"
      by (simp add: saveState_def get_cfg_def ensureProp_def act_defs)
    ultimately show "priv_cfg (snd (saveState changes s)) = None
      \<and> priv_cfg (snd (setBrowsers env browsers s)) = None"
      by simp
  qed
  have 10: "priv_cfg s \<noteq> None \<longrightarrow>
        priv_cfg (snd (saveState changes s)) \<noteq> None
      \<and> priv_cfg (snd (setBrowsers env browsers s)) \<noteq> None
      \<and> priv_cfg (snd (open_project env opts s)) \<noteq> None"
  proof
    assume some: "priv_cfg s \<noteq> None"
    have "keeps (\<lambda>x. priv_cfg x \<noteq> None) (saveState changes)"
      by (rule saveState_keeps) simp_all
    moreover have "keeps (\<lambda>x. priv_cfg x \<noteq> None) (setBrowsers env browsers)"
      by (rule setBrowsers_keeps) simp_all
    moreover have "keeps (\<lambda>x. priv_cfg x \<noteq> None) (open_project env opts)"
      by (rule open_project_keeps) simp_all
    ultimately show "priv_cfg (snd (saveState changes s)) \<noteq> None
      \<and> priv_cfg (snd (setBrowsers env browsers s)) \<noteq> None
      \<and> priv_cfg (snd (open_project env opts s)) \<noteq> None"
      using some by (simp add: keeps_def)
  qed
  show ?thesis
    by (intro conjI 1 2 3 4 5 6 7 8 9 10)
qed

text \<open>The theorem on the concrete project: new, opened, closed.\<close>

theorem stored_config_lifecycle_witness:
  "priv_cfg example_project = None
   \<and> priv_cfg opened_example \<noteq> None
   \<and> priv_cfg closed_example = priv_cfg opened_example
   \<and> priv_cfg (snd (saveState [] example_project)) = None"
proof -
  note L = stored_config_lifecycle [where env = example_env and w = example_world
      and root = "''/proj''" and ptype = E2E and p = example_project and opts = "[]"
      and s = example_project and r = Undefined and s' = opened_example and changes = "[]"]
  have new: "ProjectBase example_env example_world ''/proj'' E2E = Inr example_project"
    by (simp add: ProjectBase_def example_env_def example_world_def example_project_def)
  from L new have a: "priv_cfg example_project = None"
    by blast
  from L ex_open have b: "priv_cfg opened_example \<noteq> None"
    by blast
  from L a have d: "priv_cfg (snd (saveState [] example_project)) = None"
    by blast
  have c: "priv_cfg closed_example = priv_cfg opened_example"
    using stored_config_lifecycle [where env = example_env and s = opened_example]
    by (simp add: closed_example_def)
  from a b c d show ?thesis
    by simp
qed

section \<open>Spec URLs\<close>

lemma takeWhile_slash_append:
  "ys = [] \<or> \<not> is_slash (hd ys) \<Longrightarrow> takeWhile is_slash (xs @ ys) = takeWhile is_slash xs"
  by (induction xs) (cases ys; simp)+

lemma replace_append:
  assumes "ys = [] \<or> \<not> is_slash (hd ys)"
  shows "slash_run_free xs \<Longrightarrow>
    replace_multipleForwardSlashes (xs @ ys) = xs @ replace_multipleForwardSlashes ys"
proof (induction xs)
  case Nil
  then show ?case by simp
next
  case (Cons c cs)
  then show ?case
    using takeWhile_slash_append [OF assms, of cs] by auto
qed

lemma replace_all_suffix:
  "replace_multipleForwardSlashes ''#/tests//__all'' = ''#/tests/__all''"
  by code_simp

lemma replace_plain_url:
  assumes "slash_run_free (u @ ''/'')"
  shows "replace_multipleForwardSlashes (u @ ''/#/tests//__all'') = u @ ''/#/tests/__all''"
proof -
  have split: "u @ ''/#/tests//__all'' = (u @ ''/'') @ ''#/tests//__all''"
    and join: "(u @ ''/'') @ ''#/tests/__all'' = u @ ''/#/tests/__all''"
    by simp_all
  have "replace_multipleForwardSlashes ((u @ ''/'') @ ''#/tests//__all'')
      = (u @ ''/'') @ replace_multipleForwardSlashes ''#/tests//__all''"
    by (rule replace_append [OF _ assms]) (simp add: is_slash_def)
  then show ?thesis
    by (simp only: split join replace_all_suffix)
qed

lemma getSpecUrl_stored:
  assumes "priv_cfg s = Some cfg"
    and "prop_of cfg ''browserUrl'' = JStr u"
    and "escapeFilenameInUrl env ''/__all'' = ''/__all''"
    and "\<not> truthy path \<or> path = JStr ''__all''"
  shows "getSpecUrl env path specType s
           = (Inr (replace_multipleForwardSlashes (u @ ''/#/tests//__all'')), s)"
  using assms
  by (auto simp: getSpecUrl_def getConfig_def normalizeSpecUrl_def join_element_def act_defs
      Let_def simp del: replace_multipleForwardSlashes.simps)

text \<open>
  Claim C7 says that \<open>getSpecUrl(undefined, 'integration')\<close> and
  \<open>getSpecUrl('__all', 'integration')\<close> both return the string
  \<open>browserUrl + "/#/tests/__all"\<close>. On the concrete project, whose \<open>browserUrl\<close> is
  \<open>http://localhost:2020/__/\<close>, the result is \<open>http://localhost:2020/__/#/tests/__all\<close>:
  the join puts a second slash behind the one that ends \<open>browserUrl\<close>, and
  \<open>normalizeSpecUrl\<close> removes one slash of that run.
\<close>

theorem getSpecUrl_all_counterexample:
  "stored_prop opened_example ''browserUrl'' = JStr ''http://localhost:2020/__/''
   \<and> fst (getSpecUrl example_env Undefined (JStr ''integration'') opened_example)
       = Inr ''http://localhost:2020/__/#/tests/__all''
   \<and> fst (getSpecUrl example_env Undefined (JStr ''integration'') opened_example)
       \<noteq> Inr (''http://localhost:2020/__/'' @ ''/#/tests/__all'')"
proof -
  from opened_example_fields(6) obtain cfg where cfg: "priv_cfg opened_example = Some cfg"
    and url: "prop_of cfg ''browserUrl'' = JStr ''http://localhost:2020/__/''"
    by (auto simp: stored_prop_def split: option.splits)
  have "getSpecUrl example_env Undefined (JStr ''integration'') opened_example
      = (Inr (replace_multipleForwardSlashes (''http://localhost:2020/__/'' @ ''/#/tests//__all'')),
         opened_example)"
    by (rule getSpecUrl_stored [OF cfg url]) (simp_all add: example_env_def)
  moreover have "replace_multipleForwardSlashes (''http://localhost:2020/__/'' @ ''/#/tests//__all'')
      = ''http://localhost:2020/__/#/tests/__all''"
    by code_simp
  ultimately show ?thesis
    using opened_example_fields(6) by simp
qed

text \<open>
  Claim C7 as amended. With a stored config whose \<open>browserUrl\<close> is the string \<open>u\<close> (and
  an escaping that leaves \<open>/__all\<close> alone), \<open>getSpecUrl\<close> of an absent path and of
  \<open>'__all'\<close> return the same string and leave the state as it was: \<open>u + "/#/tests//__all"\<close>
  after the replacement of slash runs. That string is \<open>u + "/#/tests/__all"\<close> whenever
  \<open>u + "/"\<close> has no character other than \<open>:\<close> and \<open>/\<close> followed by two or more slashes,
  that is, whenever \<open>u\<close> has no such run and does not end in a slash that follows such a
  character.
\<close>

theorem getSpecUrl_all:
  assumes "priv_cfg s = Some cfg"
    and "prop_of cfg ''browserUrl'' = JStr u"
    and "escapeFilenameInUrl env ''/__all'' = ''/__all''"
  shows "getSpecUrl env Undefined specType s
           = (Inr (replace_multipleForwardSlashes (u @ ''/#/tests//__all'')), s)
       \<and> getSpecUrl env (JStr ''__all'') specType s
           = (Inr (replace_multipleForwardSlashes (u @ ''/#/tests//__all'')), s)
       \<and> (slash_run_free (u @ ''/'')
          \<longrightarrow> replace_multipleForwardSlashes (u @ ''/#/tests//__all'') = u @ ''/#/tests/__all'')"
  using getSpecUrl_stored [OF assms, of Undefined specType]
    getSpecUrl_stored [OF assms, of "JStr ''__all''" specType] replace_plain_url [of u]
  by simp

lemma plain_url_free: "slash_run_free (''http://localhost:2020'' @ ''/'')"
  by code_simp

text \<open>The theorem for a \<open>browserUrl\<close> without a path: \<open>http://localhost:2020\<close>.\<close>

theorem getSpecUrl_all_witness:
  "getSpecUrl example_env Undefined (JStr ''integration'')
     (example_project\<lparr>priv_cfg := Some [(''browserUrl'', JStr ''http://localhost:2020'')]\<rparr>)
   = (Inr ''http://localhost:2020/#/tests/__all'',
      example_project\<lparr>priv_cfg := Some [(''browserUrl'', JStr ''http://localhost:2020'')]\<rparr>)
   \<and> getSpecUrl example_env (JStr ''__all'') (JStr ''integration'')
     (example_project\<lparr>priv_cfg := Some [(''browserUrl'', JStr ''http://localhost:2020'')]\<rparr>)
   = (Inr ''http://localhost:2020/#/tests/__all'',
      example_project\<lparr>priv_cfg := Some [(''browserUrl'', JStr ''http://localhost:2020'')]\<rparr>)"
  using getSpecUrl_all [of "example_project\<lparr>priv_cfg := Some [(''browserUrl'', JStr ''http://localhost:2020'')]\<rparr>"
      "[(''browserUrl'', JStr ''http://localhost:2020'')]" "''http://localhost:2020''" example_env
      "JStr ''integration''"] plain_url_free
  by (simp add: prop_of_Cons example_env_def del: replace_multipleForwardSlashes.simps slash_run_free.simps)

section \<open>The timestamps saved by open\<close>

lemma open_project_result:
  assumes "open_project env opts s = (Inr r, s')"
  shows "clock s' = clock s" and "projectRoot s' = projectRoot s"
    and "\<exists>c. priv_cfg s' = Some c \<and> prop_of c ''state'' = JObj (persisted s' (projectRoot s))"
    and "(\<forall>c m. prop_of (config_updateWithPluginValues env c m) ''state'' = prop_of c ''state'')
          \<Longrightarrow> (\<forall>c. map_of (config_setUrls env c) ''state'' = None)
          \<Longrightarrow> persisted s' (projectRoot s) =
                extend_obj (persisted s (projectRoot s)) (stateToSave_of (state_seen s) (clock s))"
  using wpD [OF open_project_wp assms] by auto

lemma stateToSave_first:
  assumes "\<not> truthy (js_prop st ''firstOpened'')"
  shows "stateToSave_of st now = [(''lastOpened'', JNum now), (''firstOpened'', JNum now)]"
  using assms by (simp add: stateToSave_of_def)

lemma stateToSave_later:
  assumes "truthy (js_prop st ''firstOpened'')"
  shows "stateToSave_of st now = [(''lastOpened'', JNum now)]"
proof -
  from assms have "truthy st"
    by (cases st) simp_all
  with assms show ?thesis
    by (simp add: stateToSave_of_def)
qed

lemma close_project_persisted: "persisted (snd (close_project env s)) = persisted s"
  by (rule keeps_eqD, rule close_project_keeps) simp_all

lemma close_project_projectRoot: "projectRoot (snd (close_project env s)) = projectRoot s"
  by (rule keeps_eqD, rule close_project_keeps) simp_all

lemma close_project_state_seen: "state_seen (snd (close_project env s)) = state_seen s"
  by (simp add: state_seen_def close_project_persisted close_project_projectRoot close_project_cfg
      split: option.splits)

lemma saveState_firstOpened:
  assumes "saveState changes s2 = (Inr st, s3)"
  shows "projectRoot s3 = projectRoot s2
       \<and> state_seen s3 = JObj (persisted s3 (projectRoot s2))
       \<and> prop_of (persisted s3 (projectRoot s2)) ''firstOpened'' =
           (case map_of changes ''firstOpened'' of
              Some v \<Rightarrow> v
            | None \<Rightarrow> prop_of (persisted s2 (projectRoot s2)) ''firstOpened'')"
proof -
  from saveState_result [OF assms] obtain c where
    st: "st = extend_obj (persisted s2 (projectRoot s2)) changes"
    and s3: "s3 = s2\<lparr>trace := trace s2 @ [SavedStateCreate (projectRoot s2) (prop_of c ''isTextTerminal''),
                                          SavedStateSet changes, SavedStateGet],
                     persisted := (persisted s2)(projectRoot s2 := st),
                     priv_cfg := Some (set_prop c ''state'' (JObj st))\<rparr>"
    by blast
  show ?thesis
    unfolding s3 by (simp add: state_seen_def prop_of_set_prop st prop_of_extend_obj)
qed

lemma open_project_later:
  assumes plugins: "\<forall>c m. prop_of (config_updateWithPluginValues env c m) ''state'' = prop_of c ''state''"
    and urls: "\<forall>c. map_of (config_setUrls env c) ''state'' = None"
    and seen: "truthy (js_prop (state_seen s2) ''firstOpened'')"
    and run: "open_project env opts2 s2 = (Inr r2, s3)"
  shows "prop_of (persisted s3 (projectRoot s2)) ''firstOpened''
           = prop_of (persisted s2 (projectRoot s2)) ''firstOpened''"
    and "prop_of (persisted s3 (projectRoot s2)) ''lastOpened'' = JNum (clock s2)"
    and "stored_prop s3 ''state'' = JObj (persisted s3 (projectRoot s2))"
proof -
  note o = open_project_result [OF run]
  have p3: "persisted s3 (projectRoot s2)
      = extend_obj (persisted s2 (projectRoot s2)) [(''lastOpened'', JNum (clock s2))]"
    using o(4) [OF plugins urls] by (simp add: stateToSave_later [OF seen])
  show "prop_of (persisted s3 (projectRoot s2)) ''firstOpened''
           = prop_of (persisted s2 (projectRoot s2)) ''firstOpened''"
    and "prop_of (persisted s3 (projectRoot s2)) ''lastOpened'' = JNum (clock s2)"
    unfolding p3 by (simp_all add: prop_of_extend_obj)
  show "stored_prop s3 ''state'' = JObj (persisted s3 (projectRoot s2))"
    using o(3) by (auto simp: stored_prop_def)
qed

lemma state_seen_clock: "state_seen (s\<lparr>clock := t\<rparr>) = state_seen s"
  by (simp add: state_seen_def split: option.splits)

lemma saveState_returns:
  assumes "priv_cfg s \<noteq> None" and "projectRoot s \<noteq> []"
  shows "\<exists>st s'. saveState changes s = (Inr st, s')"
  using assms
  by (auto simp: saveState_def savedState_set_get_def get_cfg_def ensureProp_def act_defs
      split: option.splits sum.splits if_splits)

lemma saveState_persisted:
  assumes "saveState changes s2 = (Inr st, s3)"
  shows "prop_of (persisted s3 (projectRoot s2)) k =
           (case map_of changes k of
              Some v \<Rightarrow> v
            | None \<Rightarrow> prop_of (persisted s2 (projectRoot s2)) k)"
proof -
  from saveState_result [OF assms] obtain c where
    st: "st = extend_obj (persisted s2 (projectRoot s2)) changes"
    and s3: "s3 = s2\<lparr>trace := trace s2 @ [SavedStateCreate (projectRoot s2) (prop_of c ''isTextTerminal''),
                                          SavedStateSet changes, SavedStateGet],
                     persisted := (persisted s2)(projectRoot s2 := st),
                     priv_cfg := Some (set_prop c ''state'' (JObj st))\<rparr>"
    by blast
  show ?thesis
    unfolding s3 by (simp add: st prop_of_extend_obj)
qed

text \<open>The state after \<open>saveState(changes)\<close> and \<open>close()\<close>, at time \<open>t\<close>.\<close>

lemma after_saveState_close:
  assumes "priv_cfg s \<noteq> None" and "projectRoot s \<noteq> []"
    and "s' = (snd (close_project env (snd (saveState changes s))))\<lparr>clock := t\<rparr>"
  shows "projectRoot s' = projectRoot s"
    and "prop_of (persisted s' (projectRoot s)) k =
           (case map_of changes k of
              Some v \<Rightarrow> v
            | None \<Rightarrow> prop_of (persisted s (projectRoot s)) k)"
    and "state_seen s' = JObj (persisted s' (projectRoot s))"
    and "clock s' = t"
proof -
  from saveState_returns [OF assms(1,2)] obtain st s3
    where run: "saveState changes s = (Inr st, s3)"
    by blast
  note sv = saveState_firstOpened [OF run]
  have s': "s' = (snd (close_project env s3))\<lparr>clock := t\<rparr>"
    using assms(3) run by simp
  show "projectRoot s' = projectRoot s"
    unfolding s' using sv by (simp add: close_project_projectRoot)
  show "prop_of (persisted s' (projectRoot s)) k =
           (case map_of changes k of
              Some v \<Rightarrow> v
            | None \<Rightarrow> prop_of (persisted s (projectRoot s)) k)"
    unfolding s' using saveState_persisted [OF run, of k] by (simp add: close_project_persisted)
  have "state_seen s' = state_seen (snd (close_project env s3))"
    unfolding s' by (rule state_seen_clock)
  then show "state_seen s' = JObj (persisted s' (projectRoot s))"
    unfolding s' using sv by (simp add: close_project_state_seen close_project_persisted)
  show "clock s' = t"
    unfolding s' by simp
qed

lemma open_project_first:
  assumes plugins: "\<forall>c m. prop_of (config_updateWithPluginValues env c m) ''state'' = prop_of c ''state''"
    and urls: "\<forall>c. map_of (config_setUrls env c) ''state'' = None"
    and seen: "\<not> truthy (js_prop (state_seen s) ''firstOpened'')"
    and run: "open_project env opts s = (Inr r1, s1)"
  shows "prop_of (persisted s1 (projectRoot s)) ''firstOpened'' = JNum (clock s)"
    and "prop_of (persisted s1 (projectRoot s)) ''lastOpened'' = JNum (clock s)"
    and "stored_prop s1 ''state'' = JObj (persisted s1 (projectRoot s))"
    and "state_seen s1 = JObj (persisted s1 (projectRoot s))"
proof -
  note o = open_project_result [OF run]
  have p1: "persisted s1 (projectRoot s)
      = extend_obj (persisted s (projectRoot s))
          [(''lastOpened'', JNum (clock s)), (''firstOpened'', JNum (clock s))]"
    using o(4) [OF plugins urls] by (simp add: stateToSave_first [OF seen])
  show "prop_of (persisted s1 (projectRoot s)) ''firstOpened'' = JNum (clock s)"
    and "prop_of (persisted s1 (projectRoot s)) ''lastOpened'' = JNum (clock s)"
    unfolding p1 by (simp_all add: prop_of_extend_obj)
  show "stored_prop s1 ''state'' = JObj (persisted s1 (projectRoot s))"
    and "state_seen s1 = JObj (persisted s1 (projectRoot s))"
    using o(3) by (auto simp: stored_prop_def state_seen_def)
qed

lemma example_env_state:
  "\<forall>c m. prop_of (config_updateWithPluginValues example_env c m) ''state'' = prop_of c ''state''"
  "\<forall>c. map_of (config_setUrls example_env c) ''state'' = None"
  by (simp_all add: example_env_def)

lemma opened_example_saves: "priv_cfg opened_example \<noteq> None" "projectRoot opened_example \<noteq> []"
  using open_project_stores [OF ex_open] by (simp_all add: opened_example_fields)

lemma ex_reopen_fst: "fst (open_project example_env [] resumed_example) = Inr Undefined"
  by code_simp

lemma ex_reopen:
  "open_project example_env [] resumed_example = (Inr Undefined, reopened_example)"
  using ex_reopen_fst by (simp add: reopened_example_def prod_eq_iff)

lemma ex_overwritten_fst: "fst (open_project example_env [] overwritten_example) = Inr Undefined"
  by code_simp

lemma ex_zero_fst: "fst (open_project example_env [] (example_project\<lparr>clock := 0\<rparr>)) = Inr Undefined"
  by code_simp

lemma ex_zero_reopen_fst: "fst (open_project example_env [] zero_resumed_example) = Inr Undefined"
  by code_simp

text \<open>
  Claim C5 says that after the first \<open>open()\<close>, at time \<open>T\<close>, every later \<open>open()\<close> of the
  project leaves \<open>firstOpened\<close> at \<open>T\<close>: it is set once and never overwritten. On the
  concrete project, opened at time 1000: after \<open>saveState({ firstOpened: 7 })\<close> and
  \<open>close()\<close>, the \<open>open()\<close> at time 2000 completes and \<open>firstOpened\<close> is 7, the value that
  \<open>saveState\<close> wrote over 1000. And the project opened at time 0, closed and opened again
  at time 5 has \<open>firstOpened\<close> 5: \<open>open()\<close> tests \<open>firstOpened\<close> for truthiness, and writes
  it again over a 0.
\<close>

theorem opened_timestamps_counterexample:
  "fst (open_project example_env [] example_project) = Inr Undefined
 \<and> prop_of (persisted opened_example ''/proj'') ''firstOpened'' = JNum 1000
 \<and> prop_of (persisted overwritten_example ''/proj'') ''firstOpened'' = JNum 7
 \<and> clock overwritten_example = 2000
 \<and> fst (open_project example_env [] overwritten_example) = Inr Undefined
 \<and> prop_of (persisted (snd (open_project example_env [] overwritten_example)) ''/proj'')
       ''firstOpened'' = JNum 7
 \<and> prop_of (persisted (snd (open_project example_env [] overwritten_example)) ''/proj'')
       ''lastOpened'' = JNum 2000
 \<and> fst (open_project example_env [] (example_project\<lparr>clock := 0\<rparr>)) = Inr Undefined
 \<and> prop_of (persisted zero_example ''/proj'') ''firstOpened'' = JNum 0
 \<and> clock zero_resumed_example = 5
 \<and> fst (open_project example_env [] zero_resumed_example) = Inr Undefined
 \<and> prop_of (persisted (snd (open_project example_env [] zero_resumed_example)) ''/proj'')
       ''firstOpened'' = JNum 5"
proof -
  have root: "projectRoot example_project = ''/proj''"
    and unseen: "\<not> truthy (js_prop (state_seen example_project) ''firstOpened'')"
      "\<not> truthy (js_prop (state_seen (example_project\<lparr>clock := 0\<rparr>)) ''firstOpened'')"
    by (simp_all add: example_project_def state_seen_def prop_of_Nil)
  note first = open_project_first [OF example_env_state unseen(1) ex_open, unfolded root]
  have 1: "prop_of (persisted opened_example ''/proj'') ''firstOpened'' = JNum 1000"
    using first(1) by (simp add: example_project_def)
  note w = after_saveState_close [OF opened_example_saves overwritten_example_def,
      unfolded opened_example_fields(3)]
  have 2: "prop_of (persisted overwritten_example ''/proj'') ''firstOpened'' = JNum 7"
    using w(2) [of "''firstOpened''"] by simp
  have 3: "clock overwritten_example = 2000"
    by (rule w(4))
  have run2: "open_project example_env [] overwritten_example
      = (Inr Undefined, snd (open_project example_env [] overwritten_example))"
    using ex_overwritten_fst by (simp add: prod_eq_iff)
  have seen2: "truthy (js_prop (state_seen overwritten_example) ''firstOpened'')"
    using w(3) 2 by simp
  note second = open_project_later [OF example_env_state seen2 run2, unfolded w(1)]
  have 4: "prop_of (persisted (snd (open_project example_env [] overwritten_example)) ''/proj'')
       ''firstOpened'' = JNum 7"
    and 5: "prop_of (persisted (snd (open_project example_env [] overwritten_example)) ''/proj'')
       ''lastOpened'' = JNum 2000"
    using second(1,2) 2 3 by simp_all
  have run0: "open_project example_env [] (example_project\<lparr>clock := 0\<rparr>) = (Inr Undefined, zero_example)"
    using ex_zero_fst by (simp add: zero_example_def prod_eq_iff)
  note zero = open_project_first [OF example_env_state unseen(2) run0]
  have root0: "projectRoot (example_project\<lparr>clock := 0\<rparr>) = ''/proj''"
    by (simp add: root)
  have 6: "prop_of (persisted zero_example ''/proj'') ''firstOpened'' = JNum 0"
    using zero(1) by (simp add: root0)
  have rootz: "projectRoot zero_resumed_example = ''/proj''"
    using open_project_result(2) [OF run0]
    by (simp add: zero_resumed_example_def close_project_projectRoot root0)
  have "state_seen zero_resumed_example = state_seen zero_example"
    by (simp add: zero_resumed_example_def state_seen_clock close_project_state_seen)
  then have seen0: "\<not> truthy (js_prop (state_seen zero_resumed_example) ''firstOpened'')"
    using zero(4) 6 by (simp add: root0)
  have 7: "clock zero_resumed_example = 5"
    by (simp add: zero_resumed_example_def)
  have run3: "open_project example_env [] zero_resumed_example
      = (Inr Undefined, snd (open_project example_env [] zero_resumed_example))"
    using ex_zero_reopen_fst by (simp add: prod_eq_iff)
  have 8: "prop_of (persisted (snd (open_project example_env [] zero_resumed_example)) ''/proj'')
       ''firstOpened'' = JNum 5"
    using open_project_first(1) [OF example_env_state seen0 run3] by (simp add: rootz 7)
  show ?thesis
    using ex_open_fst 1 2 3 ex_overwritten_fst 4 5 ex_zero_fst 6 7 ex_zero_reopen_fst 8
    by (intro conjI)
qed

text \<open>
  Claim C5 as amended. A project opened with no persisted state and no stored config has,
  when \<open>open()\<close> completes, \<open>firstOpened\<close> and \<open>lastOpened\<close> both equal to the time \<open>T\<close> that
  this \<open>open()\<close> read, in the persisted state and in the \<open>state\<close> of the stored config. A
  later \<open>open()\<close> of the same project root at a time \<open>T2 > T\<close>, from any state in which
  \<open>firstOpened\<close> is still \<open>T\<close> (in the persisted state and in the state that \<open>open()\<close>
  sees) and \<open>T\<close> is not 0, sets \<open>lastOpened\<close> to \<open>T2\<close> and leaves \<open>firstOpened\<close> at \<open>T\<close>.
  The state left by the first \<open>open()\<close> is such a state; \<open>open()\<close> never changes a truthy
  \<open>firstOpened\<close>; \<open>saveState(changes)\<close> changes it exactly when \<open>changes\<close> has a
  \<open>firstOpened\<close> property, and leaves the stored config's state equal to the persisted
  one; \<open>close()\<close> changes neither. The hypotheses on the collaborators: merging the
  plugins' values and setting the URLs leave the \<open>state\<close> property of the config alone.
\<close>

theorem opened_timestamps:
  assumes plugins: "\<forall>c m. prop_of (config_updateWithPluginValues env c m) ''state'' = prop_of c ''state''"
    and urls: "\<forall>c. map_of (config_setUrls env c) ''state'' = None"
    and fresh: "priv_cfg s = None" "persisted s (projectRoot s) = []"
    and first: "open_project env opts s = (Inr r1, s1)"
  shows "prop_of (persisted s1 (projectRoot s)) ''firstOpened'' = JNum (clock s)
       \<and> prop_of (persisted s1 (projectRoot s)) ''lastOpened'' = JNum (clock s)
       \<and> stored_prop s1 ''state'' = JObj (persisted s1 (projectRoot s))
       \<and> projectRoot s1 = projectRoot s
       \<and> js_prop (state_seen s1) ''firstOpened'' = JNum (clock s)
       \<and> (\<forall>s2 opts2 r2 s3.
            projectRoot s2 = projectRoot s
          \<and> prop_of (persisted s2 (projectRoot s)) ''firstOpened'' = JNum (clock s)
          \<and> js_prop (state_seen s2) ''firstOpened'' = JNum (clock s)
          \<and> clock s \<noteq> 0 \<and> clock s < clock s2
          \<and> open_project env opts2 s2 = (Inr r2, s3)
          \<longrightarrow> prop_of (persisted s3 (projectRoot s)) ''firstOpened'' = JNum (clock s)
            \<and> prop_of (persisted s3 (projectRoot s)) ''lastOpened'' = JNum (clock s2)
            \<and> stored_prop s3 ''state'' = JObj (persisted s3 (projectRoot s)))
       \<and> (\<forall>s2 opts2 r2 s3.
            truthy (js_prop (state_seen s2) ''firstOpened'')
          \<and> open_project env opts2 s2 = (Inr r2, s3)
          \<longrightarrow> prop_of (persisted s3 (projectRoot s2)) ''firstOpened''
                = prop_of (persisted s2 (projectRoot s2)) ''firstOpened'')
       \<and> (\<forall>changes s2 st s3.
            saveState changes s2 = (Inr st, s3)
          \<longrightarrow> projectRoot s3 = projectRoot s2
            \<and> state_seen s3 = JObj (persisted s3 (projectRoot s2))
            \<and> prop_of (persisted s3 (projectRoot s2)) ''firstOpened'' =
                (case map_of changes ''firstOpened'' of
                   Some v \<Rightarrow> v
                 | None \<Rightarrow> prop_of (persisted s2 (projectRoot s2)) ''firstOpened''))
       \<and> (\<forall>s2. projectRoot (snd (close_project env s2)) = projectRoot s2
            \<and> persisted (snd (close_project env s2)) = persisted s2
            \<and> state_seen (snd (close_project env s2)) = state_seen s2)"
proof -
  note o1 = open_project_result [OF first]
  have seen: "state_seen s = JObj []"
    using fresh by (simp add: state_seen_def)
  have p1: "persisted s1 (projectRoot s)
      = extend_obj [] [(''lastOpened'', JNum (clock s)), (''firstOpened'', JNum (clock s))]"
    using o1(4) [OF plugins urls] fresh seen by (simp add: stateToSave_of_def prop_of_Nil)
  have f1: "prop_of (persisted s1 (projectRoot s)) ''firstOpened'' = JNum (clock s)"
    and l1: "prop_of (persisted s1 (projectRoot s)) ''lastOpened'' = JNum (clock s)"
    unfolding p1 by (simp_all add: prop_of_extend_obj)
  from o1(3) obtain c1 where c1: "priv_cfg s1 = Some c1"
    and st1: "prop_of c1 ''state'' = JObj (persisted s1 (projectRoot s))"
    by auto
  have sp1: "stored_prop s1 ''state'' = JObj (persisted s1 (projectRoot s))"
    using c1 st1 by (simp add: stored_prop_def)
  have seen1: "js_prop (state_seen s1) ''firstOpened'' = JNum (clock s)"
    using c1 st1 f1 by (simp add: state_seen_def)
  have later: "prop_of (persisted s3 (projectRoot s)) ''firstOpened'' = JNum (clock s)
            \<and> prop_of (persisted s3 (projectRoot s)) ''lastOpened'' = JNum (clock s2)
            \<and> stored_prop s3 ''state'' = JObj (persisted s3 (projectRoot s))"
    if "projectRoot s2 = projectRoot s"
      and "prop_of (persisted s2 (projectRoot s)) ''firstOpened'' = JNum (clock s)"
      and "js_prop (state_seen s2) ''firstOpened'' = JNum (clock s)"
      and "clock s \<noteq> 0" and "open_project env opts2 s2 = (Inr r2, s3)"
    for s2 opts2 r2 s3
  proof -
    from that(3,4) have "truthy (js_prop (state_seen s2) ''firstOpened'')"
      by simp
    from open_project_later [OF plugins urls this that(5)] that(1,2) show ?thesis
      by simp
  qed
  have never: "prop_of (persisted s3 (projectRoot s2)) ''firstOpened''
                = prop_of (persisted s2 (projectRoot s2)) ''firstOpened''"
    if "truthy (js_prop (state_seen s2) ''firstOpened'')"
      and "open_project env opts2 s2 = (Inr r2, s3)"
    for s2 opts2 r2 s3
    using that by (rule open_project_later(1) [OF plugins urls])
  have closes: "projectRoot (snd (close_project env s2)) = projectRoot s2
            \<and> persisted (snd (close_project env s2)) = persisted s2
            \<and> state_seen (snd (close_project env s2)) = state_seen s2" for s2
    by (simp add: close_project_persisted close_project_projectRoot close_project_state_seen)
  show ?thesis
  proof (intro conjI allI impI)
    show "prop_of (persisted s1 (projectRoot s)) ''firstOpened'' = JNum (clock s)"
      by (rule f1)
    show "prop_of (persisted s1 (projectRoot s)) ''lastOpened'' = JNum (clock s)"
      by (rule l1)
    show "stored_prop s1 ''state'' = JObj (persisted s1 (projectRoot s))"
      by (rule sp1)
    show "projectRoot s1 = projectRoot s"
      by (rule o1(2))
    show "js_prop (state_seen s1) ''firstOpened'' = JNum (clock s)"
      by (rule seen1)
  qed (use later never saveState_firstOpened closes in \<open>blast+\<close>)
qed

text \<open>
  The theorem on the concrete project: opened at time 1000, then
  \<open>saveState({ appWidth: 800 })\<close> and \<open>close()\<close>, and opened again at time 2000.
\<close>

theorem opened_timestamps_witness:
  "prop_of (persisted opened_example ''/proj'') ''firstOpened'' = JNum 1000
 \<and> prop_of (persisted opened_example ''/proj'') ''lastOpened'' = JNum 1000
 \<and> stored_prop opened_example ''state'' = JObj (persisted opened_example ''/proj'')
 \<and> prop_of (persisted resumed_example ''/proj'') ''appWidth'' = JNum 800
 \<and> clock resumed_example = 2000
 \<and> prop_of (persisted reopened_example ''/proj'') ''firstOpened'' = JNum 1000
 \<and> prop_of (persisted reopened_example ''/proj'') ''lastOpened'' = JNum 2000
 \<and> stored_prop reopened_example ''state'' = JObj (persisted reopened_example ''/proj'')"
proof -
  have fresh: "priv_cfg example_project = None"
      "persisted example_project (projectRoot example_project) = []"
    and now: "clock example_project = 1000"
    and root: "projectRoot example_project = ''/proj''"
    by (simp_all add: example_project_def)
  note t = opened_timestamps [OF example_env_state fresh ex_open, unfolded root now]
  note first = t [THEN conjunct1] t [THEN conjunct2, THEN conjunct1]
    t [THEN conjunct2, THEN conjunct2, THEN conjunct1]
  note later = t [THEN conjunct2, THEN conjunct2, THEN conjunct2, THEN conjunct2, THEN conjunct2,
      THEN conjunct1, rule_format, of resumed_example "[]" Undefined reopened_example]
  note r = after_saveState_close [OF opened_example_saves resumed_example_def,
      unfolded opened_example_fields(3)]
  have width: "prop_of (persisted resumed_example ''/proj'') ''appWidth'' = JNum 800"
    and kept: "prop_of (persisted resumed_example ''/proj'') ''firstOpened'' = JNum 1000"
    using r(2) [of "''appWidth''"] r(2) [of "''firstOpened''"] first(1) by simp_all
  have seen: "js_prop (state_seen resumed_example) ''firstOpened'' = JNum 1000"
    using r(3) kept by simp
  have "prop_of (persisted reopened_example ''/proj'') ''firstOpened'' = JNum 1000
      \<and> prop_of (persisted reopened_example ''/proj'') ''lastOpened'' = JNum (clock resumed_example)
      \<and> stored_prop reopened_example ''state'' = JObj (persisted reopened_example ''/proj'')"
    by (rule later) (simp add: r(1) r(4) kept seen ex_reopen)
  with first width r(4) show ?thesis
    by simp
qed

section \<open>A change of the plugins file\<close>

lemma bnd_call_state:
  assumes "\<And>x. keeps P (g x)" and "P (s\<lparr>trace := trace s @ [ev]\<rparr>)"
  shows "P (snd (bnd (call ev r) g s))"
  using assms by (cases r) (auto simp: act_defs keeps_def)

lemma initPlugins_emits:
  "PluginsInit \<in> set (drop (length (trace s)) (trace (snd (initPlugins env cfg opts s))))"
proof -
  let ?P = "\<lambda>x. PluginsInit \<in> set (drop (length (trace s)) (trace x))"
  have app: "\<And>x ev. ?P x \<Longrightarrow> ?P (x\<lparr>trace := trace x @ [ev]\<rparr>)"
    by simp
  show ?thesis
    unfolding initPlugins_def Let_def
    apply (simp only: bnd_read)
    apply (rule bnd_call_state [where P = ?P])
     apply (intro frame_intros keeps_call initSpecStore_keeps; (rule app, assumption))
    apply simp
    done
qed

lemma onChange_returns: "fst (onChange env w s) = Inr ()"
  by (cases w) (auto simp: act_defs split: prod.splits sum.splits)

lemma onChange_emits:
  "PluginsInit \<in> set (drop (length (trace s)) (trace (snd (onChange env (WatchTree p cfg opts) s))))"
  using initPlugins_emits [of s env cfg opts]
  by (auto simp: act_defs split: prod.splits sum.splits)

lemma sequence_onChange_returns: "fst (sequence (map (onChange env) ws) s) = Inr ()"
proof (induction ws arbitrary: s)
  case Nil
  show ?case by (simp add: act_defs)
next
  case (Cons w ws)
  obtain s' where s': "onChange env w s = (Inr (), s')"
    using onChange_returns [of env w s] by (cases "onChange env w s") simp
  show ?case
    using Cons.IH [of s'] by (simp add: bnd_def s')
qed

lemma sequence_onChange_emits:
  assumes "WatchTree p cfg opts \<in> set ws" and "n \<le> length (trace s)"
  shows "PluginsInit \<in> set (drop n (trace (snd (sequence (map (onChange env) ws) s))))"
  using assms
proof (induction ws arbitrary: s)
  case Nil
  then show ?case by simp
next
  case (Cons w ws)
  let ?P = "\<lambda>x. PluginsInit \<in> set (drop n (trace x))"
  obtain s' where s': "onChange env w s = (Inr (), s')"
    using onChange_returns [of env w s] by (cases "onChange env w s") simp
  have run: "sequence (map (onChange env) (w # ws)) s = sequence (map (onChange env) ws) s'"
    by (simp add: bnd_def s')
  have len: "n \<le> length (trace s')"
    using keepsD [OF onChange_keeps [where P = "\<lambda>x. n \<le> length (trace x)"] Cons.prems(2) s']
    by simp
  show ?case
  proof (cases "w = WatchTree p cfg opts")
    case True
    have "PluginsInit \<in> set (drop (length (trace s)) (trace s'))"
      using onChange_emits [of s env p cfg opts] s' True by simp
    then have "?P s'"
      using Cons.prems(2) by (metis set_drop_subset_set_drop subsetD)
    moreover have "keeps ?P (sequence (map (onChange env) ws))"
      by (intro keeps_sequence) (auto intro!: onChange_keeps)
    ultimately show ?thesis
      unfolding run by (simp add: keeps_def)
  next
    case False
    then have "WatchTree p cfg opts \<in> set ws"
      using Cons.prems(1) by simp
    from Cons.IH [OF this len] show ?thesis
      unfolding run .
  qed
qed

lemma fileChanged_returns: "fst (fileChanged env path s) = Inr ()"
  by (simp add: fileChanged_def bnd_read sequence_onChange_returns)

lemma fileChanged_emits:
  assumes "WatchTree p cfg opts \<in> set (watchers s)"
  shows "PluginsInit \<in> set (drop (length (trace s)) (trace (snd (fileChanged env p s))))"
  unfolding fileChanged_def bnd_read
  by (rule sequence_onChange_emits) (use assms in simp_all)

lemma initPlugins_trace:
  assumes "initPlugins env cfg opts s = (r, s1)"
  shows "\<exists>evs. trace s1 = trace s @ evs \<and> BrowsersClose \<notin> set evs \<and> (\<forall>e. OnError e \<notin> set evs)"
proof -
  let ?P = "\<lambda>x. \<exists>evs. trace x = trace s @ evs \<and> BrowsersClose \<notin> set evs \<and> (\<forall>e. OnError e \<notin> set evs)"
  have "keeps ?P (initPlugins env cfg opts)"
    by (rule initPlugins_keeps) auto
  moreover have "?P s"
    by simp
  ultimately show ?thesis
    using assms by (rule keepsD)
qed

lemma initPlugins_watchers: "watchers (snd (initPlugins env cfg opts s)) = watchers s"
  by (rule keeps_eqD, rule initPlugins_keeps) simp

lemma initPlugins_rejects:
  assumes "\<And>c a. plugins_init env c a = Inl e"
  shows "initPlugins env cfg opts s = (Inl e, s\<lparr>trace := trace s @ [PluginsInit]\<rparr>)"
  by (simp add: initPlugins_def Let_def act_defs assms)

text \<open>
  Claim C4 is about a plugin re-initialisation that fails after a change of the plugins
  file. When \<open>_initPlugins\<close> rejects with \<open>err\<close> from state \<open>s\<close>, leaving \<open>s1\<close>, the
  \<open>onChange\<close> of the handle returns normally and its only further effect is the call
  \<open>options.onError(err)\<close>; a change of the file never throws; the handle stays registered
  and the next change of the file calls the plugin host again. But nothing between the
  change and the delivery closes the browser: the events of the cycle contain no
  \<open>browsers.close()\<close>. The method \<open>_onError\<close>, which the plugin host is given for the
  errors it reports, does close the browser before it calls \<open>options.onError\<close>; the
  \<open>.catch\<close> of the file watcher calls \<open>options.onError\<close> directly.
\<close>

theorem plugins_reinit_failure:
  assumes registered: "WatchTree p cfg opts \<in> set (watchers s)"
    and failure: "initPlugins env cfg opts s = (Inl err, s1)"
  shows "onChange env (WatchTree p cfg opts) s = (Inr (), s1\<lparr>trace := trace s1 @ [OnError err]\<rparr>)
       \<and> (\<exists>evs. trace s1 = trace s @ evs \<and> BrowsersClose \<notin> set evs \<and> (\<forall>e. OnError e \<notin> set evs))
       \<and> fst (fileChanged env p s) = Inr ()
       \<and> WatchTree p cfg opts \<in> set (watchers (s1\<lparr>trace := trace s1 @ [OnError err]\<rparr>))
       \<and> PluginsInit \<in> set (drop (length (trace s1) + 1)
            (trace (snd (fileChanged env p (s1\<lparr>trace := trace s1 @ [OnError err]\<rparr>)))))
       \<and> onError err opts s1 = (Inr (), s1\<lparr>trace := trace s1 @ [BrowsersClose, OnError err]\<rparr>)"
proof -
  let ?s2 = "s1\<lparr>trace := trace s1 @ [OnError err]\<rparr>"
  have 1: "onChange env (WatchTree p cfg opts) s = (Inr (), ?s2)"
    using failure by (simp add: act_defs)
  have 2: "\<exists>evs. trace s1 = trace s @ evs \<and> BrowsersClose \<notin> set evs \<and> (\<forall>e. OnError e \<notin> set evs)"
    using failure by (rule initPlugins_trace)
  have 3: "fst (fileChanged env p s) = Inr ()"
    by (rule fileChanged_returns)
  have "watchers s1 = watchers s"
    using initPlugins_watchers [of env cfg opts s] failure by simp
  then have 4: "WatchTree p cfg opts \<in> set (watchers ?s2)"
    using registered by simp
  have 5: "PluginsInit \<in> set (drop (length (trace s1) + 1) (trace (snd (fileChanged env p ?s2))))"
    using fileChanged_emits [OF 4, of env] by simp
  have 6: "onError err opts s1 = (Inr (), s1\<lparr>trace := trace s1 @ [BrowsersClose, OnError err]\<rparr>)"
    by (simp add: onError_def act_defs)
  from 1 2 3 4 5 6 show ?thesis
    by (intro conjI)
qed

lemma example_handle_registered: "example_handle \<in> set (watchers opened_example)"
  by code_simp

text \<open>
  The theorem on the concrete project, opened, with a plugin host that now rejects: the
  events of the cycle are \<open>plugins.init\<close> and \<open>options.onError\<close>.
\<close>

theorem plugins_reinit_failure_witness:
  "onChange broken_plugins_env example_handle opened_example = (Inr (), failed_example)
 \<and> trace failed_example
     = trace opened_example @ [PluginsInit, OnError (Error ''plugins file threw'' Undefined)]
 \<and> fst (fileChanged broken_plugins_env (JStr ''/proj/cypress/plugins/index.js'') opened_example) = Inr ()
 \<and> example_handle \<in> set (watchers failed_example)
 \<and> PluginsInit \<in> set (drop (length (trace failed_example))
      (trace (snd (fileChanged broken_plugins_env (JStr ''/proj/cypress/plugins/index.js'')
         failed_example))))"
proof -
  let ?e = "Error ''plugins file threw'' Undefined"
  let ?s1 = "opened_example\<lparr>trace := trace opened_example @ [PluginsInit]\<rparr>"
  have rejects: "\<And>c a. plugins_init broken_plugins_env c a = Inl ?e"
    by (simp add: broken_plugins_env_def)
  note failure = initPlugins_rejects [where env = broken_plugins_env and s = opened_example, OF rejects]
  note registered = example_handle_registered [unfolded example_handle_def]
  note t = plugins_reinit_failure [OF registered failure]
  have f: "failed_example = ?s1\<lparr>trace := trace ?s1 @ [OnError ?e]\<rparr>"
    using t [THEN conjunct1] by (simp add: failed_example_def example_handle_def)
  have tr: "trace failed_example = trace opened_example @ [PluginsInit, OnError ?e]"
    unfolding f by simp
  have len: "length (trace failed_example) = length (trace ?s1) + 1"
    unfolding f by simp
  show ?thesis
    using t tr unfolding len f [symmetric] example_handle_def [symmetric]
    by simp
qed


end
